theory Spec2Isabelle
  imports Main "HOL-Library.Multiset"
begin

section \<open>Data model of the dispatcher (src/services/apiClient.ts)\<close>

text \<open>
  The dispatcher \<open>fetchWithTokenRotation\<close> talks to five collaborators: the admission
  gate (\<open>supabase.rpc\<close>), the credential store (\<open>sessionStorage\<close>, \<open>localStorage\<close>,
  \<open>getVeoAuthTokens\<close>), the transport (\<open>fetch\<close>), the telemetry sink
  (\<open>addLogEntry\<close>) and the notification bus (\<open>eventBus.dispatch\<close>). What they answer
  is an input of the model (the record \<open>env\<close>); what the code does to them is written,
  in order, to a trace of events kept in the state (the record \<open>world\<close>).
  \<open>console.log\<close> and \<open>console.error\<close> are not modelled.
\<close>

text \<open>\<open>{ token: string; createdAt: string }\<close>\<close>

record auth_token =
  token :: string
  createdAt :: string

text \<open>A JavaScript error object: its \<open>name\<close> and its \<open>message\<close>.\<close>

record js_error =
  name :: string
  message :: string

definition Error :: "string \<Rightarrow> js_error" where
  "Error msg = \<lparr>name = ''Error'', message = msg\<rparr>"

definition TypeError :: "string \<Rightarrow> js_error" where
  "TypeError msg = \<lparr>name = ''TypeError'', message = msg\<rparr>"

text \<open>
  The parsed user of \<open>localStorage.getItem('currentUser')\<close>; an absent field is the
  empty string (both are falsy in the tests the code makes).
\<close>

record user =
  user_id :: string
  username :: string
  personalAuthToken :: string

text \<open>
  The value of \<open>response.json()\<close>, as far as the code reads it: \<open>data.error?.message\<close>,
  \<open>data.message\<close>, \<open>data.operations\<close>; the rest of the body is opaque. \<open>JNull\<close> is
  the JSON value \<open>null\<close>, on which a property read throws. Any other JSON value that is
  not an object has none of the fields.
\<close>

record json_obj =
  error_message :: "string option"
  data_message :: "string option"
  operations :: "string list option"
  payload :: string

datatype json = JNull | JObj json_obj

datatype body = Unparseable js_error | Parsed json

record http_response =
  status :: nat
  body :: body

text \<open>\<open>response.ok\<close> of the Fetch standard: the status is in the range 200 to 299.\<close>

definition ok :: "http_response \<Rightarrow> bool" where
  "ok r = (200 \<le> status r \<and> status r \<le> 299)"

datatype fetch_reply = Rejected js_error | Resolved http_response

text \<open>The answer of \<open>supabase.rpc('request_generation_slot', ...)\<close>: \<open>{ data, error }\<close>.\<close>

datatype gate_reply = GateError string | GateData bool

text \<open>The outcome of \<open>getVeoAuthTokens()\<close>: it throws, or returns a list or \<open>null\<close>.\<close>

datatype refill_reply = RefillThrows js_error | RefillReturns "auth_token list option"

datatype log_status = Success | Failure

text \<open>The argument of \<open>addLogEntry\<close>; \<open>Failure\<close> is the status \<open>'Error'\<close>.\<close>

record log_entry =
  log_model :: string
  log_prompt :: string
  log_output :: string
  log_tokenCount :: nat
  log_status :: log_status
  log_error :: "string option"

datatype event =
    StatusUpdate string
  | GateCall nat string gate_reply
  | Sleep nat
  | RefillCall
  | SetSessionTokens "auth_token list"
  | LogEntry log_entry
  | FetchCall string string "string option"
  | BusDispatch string
  | SetTimeout nat
  | AbortSignal
  | ClearTimeout

text \<open>
  The environment of one call. \<open>gate k\<close> is the answer to the \<open>k\<close>-th gate call,
  \<open>randomFloor k n\<close> the integer that the \<open>k\<close>-th call of \<open>Math.random\<close> gives once
  multiplied by \<open>n\<close> and floored (see \<open>floorRandom\<close>), \<open>fetch k url bearer\<close> the
  outcome of the \<open>k\<close>-th transport call together with the time in milliseconds until
  it settles (body read included). \<open>selectedProxyServer\<close> is the session-storage entry
  of that name when the call is made, empty when absent, and
  \<open>selectedProxyServerAtLoad\<close> the same entry when the service modules were loaded.
  \<open>setItemError ts\<close> is the error that \<open>sessionStorage.setItem('veoAuthTokens', ...)\<close>
  throws for the value \<open>ts\<close>, if it throws (a full or disabled storage).
\<close>

record env =
  selectedProxyServer :: string
  selectedProxyServerAtLoad :: string
  production :: bool
  currentUser :: "user option"
  gate :: "nat \<Rightarrow> gate_reply"
  randomFloor :: "nat \<Rightarrow> nat \<Rightarrow> nat"
  getVeoAuthTokens :: refill_reply
  setItemError :: "auth_token list \<Rightarrow> js_error option"
  fetch :: "nat \<Rightarrow> string \<Rightarrow> string \<Rightarrow> nat \<times> fetch_reply"

text \<open>
  The state the call changes: the trace, how many answers of each oracle were consumed,
  and the parsed session-storage entry \<open>veoAuthTokens\<close> (empty when absent or invalid).
\<close>

record world =
  trace :: "event list"
  gateCalls :: nat
  randCalls :: nat
  fetchCalls :: nat
  veoAuthTokens :: "auth_token list"

text \<open>
  \<open>Math.floor(Math.random() * n)\<close>, for \<open>n\<close> from 1 on, is an integer from 0 to
  \<open>n - 1\<close>. The arithmetic on floats is not modelled: the environment gives the integer,
  which is read modulo \<open>n\<close>, so that every integer of that range, and no other, can
  come out.
\<close>

definition floorRandom :: "env \<Rightarrow> nat \<Rightarrow> nat \<Rightarrow> nat" where
  "floorRandom e k n = randomFloor e k n mod n"

definition emit :: "event \<Rightarrow> world \<Rightarrow> world" where
  "emit ev w = w\<lparr>trace := trace w @ [ev]\<rparr>"

text \<open>\<open>if (onStatusUpdate) onStatusUpdate(s)\<close>; \<open>cb\<close> tells whether the callback was given.\<close>

definition onStatusUpdate :: "bool \<Rightarrow> string \<Rightarrow> world \<Rightarrow> world" where
  "onStatusUpdate cb s w = (if cb then emit (StatusUpdate s) w else w)"

definition addLogEntry :: "log_entry \<Rightarrow> world \<Rightarrow> world" where
  "addLogEntry le w = emit (LogEntry le) w"

subsection \<open>Strings and numbers\<close>

definition startsWith :: "string \<Rightarrow> string \<Rightarrow> bool" where
  "startsWith s p = (take (length p) s = p)"

fun includes_str :: "string \<Rightarrow> string \<Rightarrow> bool" where
  "includes_str [] sub = (sub = [])"
| "includes_str (c # cs) sub = (startsWith (c # cs) sub \<or> includes_str cs sub)"

text \<open>\<open>s.slice(-6)\<close>: the last six characters, or all of \<open>s\<close> when it is shorter.\<close>

definition slice_last6 :: "string \<Rightarrow> string" where
  "slice_last6 s = drop (length s - 6) s"

definition digit_char :: "nat \<Rightarrow> char" where
  "digit_char d = char_of (48 + d)"

function show_nat :: "nat \<Rightarrow> string" where
  "show_nat n = (if n < 10 then [digit_char n] else show_nat (n div 10) @ [digit_char (n mod 10)])"
  by pat_completeness auto
termination
  by (relation "measure id") auto

definition show_int :: "int \<Rightarrow> string" where
  "show_int i = (if i < 0 then CHR ''-'' # show_nat (nat (- i)) else show_nat (nat i))"

text \<open>
  \<open>a || b\<close> on strings that may be absent: \<open>a\<close> when it is present and not empty,
  else \<open>b\<close>.
\<close>

definition orElse :: "string option \<Rightarrow> string \<Rightarrow> string" where
  "orElse a b = (case a of None \<Rightarrow> b | Some v \<Rightarrow> if v \<noteq> [] then v else b)"

subsection \<open>Endpoint resolver and credential store\<close>

definition getVeoProxyUrl :: "env \<Rightarrow> string" where
  "getVeoProxyUrl e =
     (if selectedProxyServer e \<noteq> [] then selectedProxyServer e
      else if production e then ''https://veox.monoklix.com'' else [])"

definition getImagenProxyUrl :: "env \<Rightarrow> string" where
  "getImagenProxyUrl e =
     (if selectedProxyServer e \<noteq> [] then selectedProxyServer e
      else if production e then ''https://gemx.monoklix.com'' else [])"

definition getSharedTokens :: "world \<Rightarrow> auth_token list" where
  "getSharedTokens w = veoAuthTokens w"

definition getPersonalToken :: "env \<Rightarrow> auth_token option" where
  "getPersonalToken e =
     (case currentUser e of
        None \<Rightarrow> None
      | Some u \<Rightarrow>
          if personalAuthToken u \<noteq> []
          then Some \<lparr>token = personalAuthToken u, createdAt = ''personal''\<rparr>
          else None)"

definition getCurrentUserInternal :: "env \<Rightarrow> user option" where
  "getCurrentUserInternal e =
     (case currentUser e of
        None \<Rightarrow> None
      | Some u \<Rightarrow> if user_id u \<noteq> [] then Some u else None)"

section \<open>The dispatcher\<close>

subsection \<open>Admission: lines 88 to 116\<close>

definition isGenerationRequest :: "string \<Rightarrow> bool" where
  "isGenerationRequest logContext =
     (includes_str logContext ''GENERATE'' \<or> includes_str logContext ''RECIPE'')"

definition gateErrorMessage :: "string \<Rightarrow> string" where
  "gateErrorMessage m = ''Database error while requesting a generation slot: '' @ m"

text \<open>
  The loop \<open>while (!slotAcquired)\<close>. It has no bound, so it is a partial function:
  \<open>None\<close> is the loop that never ends. \<open>Inl\<close> is the error thrown at line 106.
\<close>

partial_function (option) acquireSlot ::
  "env \<Rightarrow> bool \<Rightarrow> string \<Rightarrow> world \<Rightarrow> ((js_error + unit) \<times> world) option" where
  "acquireSlot e cb serverUrl w =
     (let r = gate e (gateCalls w);
          w1 = emit (GateCall 10 serverUrl r) (w\<lparr>gateCalls := gateCalls w + 1\<rparr>)
      in case r of
           GateError m \<Rightarrow> Some (Inl (Error (gateErrorMessage m)), onStatusUpdate cb [] w1)
         | GateData acquired \<Rightarrow>
             if acquired then Some (Inr (), w1)
             else acquireSlot e cb serverUrl
                    (emit (Sleep 2000)
                       (onStatusUpdate cb ''Mencuba semula untuk mendapatkan slot dalam 2 saat...'' w1)))"

declare acquireSlot.simps [code]

text \<open>Lines 92 to 94: the server the slot is asked for.\<close>

definition slotServerUrl :: "env \<Rightarrow> string \<Rightarrow> string" where
  "slotServerUrl e endpoint =
     (let imagenProxyUrl = getImagenProxyUrl e;
          veoProxyUrl = getVeoProxyUrl e
      in if startsWith endpoint imagenProxyUrl then imagenProxyUrl else veoProxyUrl)"

definition admission ::
  "env \<Rightarrow> string \<Rightarrow> string \<Rightarrow> bool \<Rightarrow> world \<Rightarrow> ((js_error + unit) \<times> world) option" where
  "admission e endpoint logContext cb w =
     (if isGenerationRequest logContext then
        (let w1 = onStatusUpdate cb
                    ''Semua slot sedang digunakan. Anda berada dalam barisan menunggu...'' w;
             serverUrl = slotServerUrl e endpoint
         in case acquireSlot e cb serverUrl w1 of
              None \<Rightarrow> None
            | Some (Inl err, w2) \<Rightarrow> Some (Inl err, w2)
            | Some (Inr u, w2) \<Rightarrow>
                Some (Inr (), onStatusUpdate cb ''Slot berjaya diperoleh. Memulakan penjanaan...'' w2))
      else Some (Inr (), w))"

subsection \<open>Credential selection: lines 120 to 152\<close>

text \<open>
  The shuffle of lines 129 to 132, for \<open>i\<close> from \<open>length - 1\<close> down to 1:
  \<open>j = Math.floor(Math.random() * (i + 1))\<close>, then elements \<open>i\<close> and \<open>j\<close> are
  swapped. \<open>k\<close> counts the random values consumed; \<open>rnd k n\<close> is
  \<open>Math.floor(Math.random() * n)\<close> at the \<open>k\<close>-th call, which keeps \<open>j \<le> i\<close>.
\<close>

fun shuffle :: "(nat \<Rightarrow> nat \<Rightarrow> nat) \<Rightarrow> nat \<Rightarrow> 'a list \<Rightarrow> nat \<Rightarrow> 'a list \<times> nat" where
  "shuffle rnd 0 xs k = (xs, k)"
| "shuffle rnd (Suc n) xs k =
     (let i = Suc n;
          j = rnd k (i + 1)
      in shuffle rnd n (xs[i := xs ! j, j := xs ! i]) (Suc k))"

definition shuffleTokens :: "env \<Rightarrow> auth_token list \<Rightarrow> world \<Rightarrow> auth_token list \<times> world" where
  "shuffleTokens e sharedTokens w =
     (case shuffle (floorRandom e) (length sharedTokens - 1) sharedTokens (randCalls w) of
        (shuffled, k) \<Rightarrow> (shuffled, w\<lparr>randCalls := k\<rparr>))"

text \<open>
  The refill of lines 134 to 146. Whatever the \<open>try\<close> block throws is caught and
  ignored: a refill that throws, and also a write to the session storage that throws,
  in which case line 140 is not reached and \<open>sharedTokens\<close> stays empty.
\<close>

definition refillTokens :: "env \<Rightarrow> world \<Rightarrow> auth_token list \<times> world" where
  "refillTokens e w =
     (let w1 = emit RefillCall w
      in case getVeoAuthTokens e of
           RefillThrows err \<Rightarrow> ([], w1)
         | RefillReturns None \<Rightarrow> ([], w1)
         | RefillReturns (Some newTokens) \<Rightarrow>
             if newTokens \<noteq> [] then
               (case setItemError e newTokens of
                  Some err \<Rightarrow> ([], w1)
                | None \<Rightarrow>
                    (newTokens, emit (SetSessionTokens newTokens) (w1\<lparr>veoAuthTokens := newTokens\<rparr>)))
             else ([], w1))"

text \<open>The \<open>else\<close> branch of line 124: personal credential first, then the shared ones.\<close>

definition rotationTokens :: "env \<Rightarrow> world \<Rightarrow> auth_token list \<times> world" where
  "rotationTokens e w =
     (let personalToken = getPersonalToken e
      in case shuffleTokens e (getSharedTokens w) w of
           (sharedTokens, w1) \<Rightarrow>
             (case (if sharedTokens = [] then refillTokens e w1 else (sharedTokens, w1)) of
                (sharedTokens', w2) \<Rightarrow>
                  ((case personalToken of None \<Rightarrow> [] | Some p \<Rightarrow> [p]) @ sharedTokens', w2)))"

definition selectTokens :: "env \<Rightarrow> string option \<Rightarrow> world \<Rightarrow> auth_token list \<times> world" where
  "selectTokens e specificToken w =
     (case specificToken of
        None \<Rightarrow> rotationTokens e w
      | Some t \<Rightarrow>
          if t \<noteq> [] then ([\<lparr>token = t, createdAt = ''N/A''\<rparr>], w)
          else rotationTokens e w)"

subsection \<open>The attempt loop: lines 159 to 210\<close>

text \<open>\<open>data.error?.message || data.message || `API call failed (${response.status})`\<close>\<close>

definition apiErrorMessage :: "json_obj \<Rightarrow> nat \<Rightarrow> string" where
  "apiErrorMessage d st =
     orElse (error_message d) (orElse (data_message d) (''API call failed ('' @ show_nat st @ '')''))"

text \<open>
  What the \<open>try\<close> block does with the settled transport call: a rejected \<open>fetch\<close> and
  an unparseable body throw their own error, a response that is not ok throws the API
  error (reading \<open>data.error\<close> of \<open>null\<close> throws a type error instead; its message
  is written as the V8 engine words it).
\<close>

definition interpretReply :: "fetch_reply \<Rightarrow> js_error + json" where
  "interpretReply r =
     (case r of
        Rejected err \<Rightarrow> Inl err
      | Resolved response \<Rightarrow>
          (case body response of
             Unparseable err \<Rightarrow> Inl err
           | Parsed data \<Rightarrow>
               if \<not> ok response then
                 (case data of
                    JNull \<Rightarrow> Inl (TypeError ''Cannot read properties of null (reading 'error')'')
                  | JObj d \<Rightarrow> Inl (Error (apiErrorMessage d (status response))))
               else Inr data))"

definition usernameHeader :: "env \<Rightarrow> string" where
  "usernameHeader e =
     (case getCurrentUserInternal e of
        None \<Rightarrow> ''unknown''
      | Some u \<Rightarrow> if username u \<noteq> [] then username u else ''unknown'')"

definition tryFetch :: "env \<Rightarrow> string \<Rightarrow> auth_token \<Rightarrow> world \<Rightarrow> (js_error + json) \<times> world" where
  "tryFetch e endpoint currentToken w =
     (let r = snd (fetch e (fetchCalls w) endpoint (token currentToken));
          w1 = emit (FetchCall endpoint (token currentToken) (Some (usernameHeader e)))
                 (w\<lparr>fetchCalls := fetchCalls w + 1\<rparr>)
      in (interpretReply r, w1))"

definition tokenIdentifier :: "env \<Rightarrow> nat \<Rightarrow> auth_token \<Rightarrow> string" where
  "tokenIdentifier e i currentToken =
     (if createdAt currentToken = ''personal'' then ''Personal Token''
      else ''Shared Token #'' @
           show_int (int i - (case getPersonalToken e of None \<Rightarrow> 0 | Some p \<Rightarrow> 1) + 1))"

text \<open>
  Lines 208 to 210. \<open>lastError\<close> is \<open>null\<close> only if the loop made no attempt, which
  line 154 excludes; reading \<open>lastError.message\<close> then throws before the entry is logged.
\<close>

definition exhausted :: "string \<Rightarrow> js_error option \<Rightarrow> world \<Rightarrow> (js_error + json \<times> string) \<times> world" where
  "exhausted logContext lastError w =
     (case lastError of
        None \<Rightarrow> (Inl (TypeError ''Cannot read properties of null (reading 'message')''), w)
      | Some err \<Rightarrow>
          (Inl err,
           addLogEntry \<lparr>log_model = logContext, log_prompt = ''All available auth tokens failed.'',
                        log_output = ''Final error: '' @ message err, log_tokenCount = 0,
                        log_status = Failure, log_error = Some (message err)\<rparr> w))"

text \<open>
  The \<open>for\<close> loop over \<open>tokensToTry\<close>: \<open>i\<close> is the index, the list argument holds the
  candidates from index \<open>i\<close> on.
\<close>

fun attemptLoop ::
  "env \<Rightarrow> string \<Rightarrow> string \<Rightarrow> bool \<Rightarrow> nat \<Rightarrow> auth_token list \<Rightarrow> js_error option \<Rightarrow> world
   \<Rightarrow> (js_error + json \<times> string) \<times> world" where
  "attemptLoop e endpoint logContext cb i [] lastError w = exhausted logContext lastError w"
| "attemptLoop e endpoint logContext cb i (currentToken # rest) lastError w =
     (let isPersonal = (createdAt currentToken = ''personal'');
          ident = tokenIdentifier e i currentToken;
          w1 = onStatusUpdate cb (''Attempting generation with '' @ ident @ ''...'') w;
          w2 = addLogEntry \<lparr>log_model = logContext, log_prompt = ''Attempt with '' @ ident,
                            log_output = ''...'' @ slice_last6 (token currentToken),
                            log_tokenCount = 0, log_status = Success, log_error = None\<rparr> w1
      in case tryFetch e endpoint currentToken w2 of
           (Inr data, w3) \<Rightarrow> (Inr (data, token currentToken), w3)
         | (Inl err, w3) \<Rightarrow>
             (let w4 = addLogEntry \<lparr>log_model = logContext, log_prompt = ident @ '' failed'',
                                    log_output = message err, log_tokenCount = 0,
                                    log_status = Failure, log_error = Some (message err)\<rparr> w3;
                  w5 = (if isPersonal then emit (BusDispatch ''personalTokenFailed'') w4 else w4)
              in attemptLoop e endpoint logContext cb (i + 1) rest (Some err) w5))"

definition noTokenError :: "string \<Rightarrow> js_error" where
  "noTokenError logContext =
     Error (''Auth Token is required for '' @ logContext @ ''. Please set one in Settings.'')"

text \<open>
  \<open>fetchWithTokenRotation(endpoint, requestBody, logContext, specificToken, onStatusUpdate)\<close>.
  The request body is an opaque payload and is left out; \<open>cb\<close> tells whether
  \<open>onStatusUpdate\<close> was given. \<open>None\<close>: the call never returns (the gate never grants);
  \<open>Inl\<close>: the error thrown; \<open>Inr\<close>: \<open>{ data, successfulToken }\<close>.
\<close>

definition fetchWithTokenRotation ::
  "env \<Rightarrow> string \<Rightarrow> string \<Rightarrow> string option \<Rightarrow> bool \<Rightarrow> world
   \<Rightarrow> ((js_error + json \<times> string) \<times> world) option" where
  "fetchWithTokenRotation e endpoint logContext specificToken cb w =
     (case admission e endpoint logContext cb w of
        None \<Rightarrow> None
      | Some (Inl err, w1) \<Rightarrow> Some (Inl err, w1)
      | Some (Inr u, w1) \<Rightarrow>
          (case selectTokens e specificToken w1 of
             (tokensToTry, w2) \<Rightarrow>
               if tokensToTry = [] then Some (Inl (noTokenError logContext), w2)
               else Some (attemptLoop e endpoint logContext cb 0 tokensToTry None w2)))"

subsection \<open>Reading the trace\<close>

fun isFetch :: "event \<Rightarrow> bool" where
  "isFetch (FetchCall url bearer un) = True"
| "isFetch ev = False"

fun isGate :: "event \<Rightarrow> bool" where
  "isGate (GateCall c s r) = True"
| "isGate ev = False"

fun isLog :: "event \<Rightarrow> bool" where
  "isLog (LogEntry le) = True"
| "isLog ev = False"

fun isBus :: "event \<Rightarrow> bool" where
  "isBus (BusDispatch n) = True"
| "isBus ev = False"

fun isRefill :: "event \<Rightarrow> bool" where
  "isRefill RefillCall = True"
| "isRefill ev = False"

fun isSleep :: "event \<Rightarrow> bool" where
  "isSleep (Sleep ms) = True"
| "isSleep ev = False"

definition countEv :: "(event \<Rightarrow> bool) \<Rightarrow> world \<Rightarrow> nat" where
  "countEv p w = length (filter p (trace w))"

text \<open>The bearer credentials of the transport calls, in the order the calls were made.\<close>

fun bearerOf :: "event \<Rightarrow> string list" where
  "bearerOf (FetchCall url bearer un) = [bearer]"
| "bearerOf ev = []"

definition bearers :: "world \<Rightarrow> string list" where
  "bearers w = concat (map bearerOf (trace w))"

definition world0 :: "auth_token list \<Rightarrow> world" where
  "world0 stored = \<lparr>trace = [], gateCalls = 0, randCalls = 0, fetchCalls = 0, veoAuthTokens = stored\<rparr>"

section \<open>The callers: src/services/veo3Service.ts and the image service\<close>

text \<open>
  The request bodies the callers build are opaque to the dispatcher and are not built
  here. What is kept of a request is what decides the path taken: the explicit
  credential \<open>config.authToken\<close> (empty when absent), \<open>imageMediaId\<close> (empty when
  absent) and \<open>config.seed\<close> (a missing or zero seed draws one value of
  \<open>Math.random()\<close>). Each service module computes its constant \<open>PROXY_BASE_URL\<close> once,
  when it is loaded, from the proxy selected at that moment.
\<close>

record generation_request =
  prompt :: string
  imageMediaId :: string
  authToken :: string
  seed :: "nat option"

definition drawSeed :: "generation_request \<Rightarrow> world \<Rightarrow> world" where
  "drawSeed request w =
     (case seed request of
        None \<Rightarrow> w\<lparr>randCalls := randCalls w + 1\<rparr>
      | Some s \<Rightarrow> if s = 0 then w\<lparr>randCalls := randCalls w + 1\<rparr> else w)"

definition timedOutError :: js_error where
  "timedOutError = Error ''Request timed out after 15 seconds.''"

text \<open>
  \<open>fetch\<close> with the abort signal and \<open>response.json()\<close>: when the timer of
  \<open>deadline\<close> milliseconds fires before the call has settled, the controller aborts and
  the call rejects with an error named \<open>AbortError\<close>. A reply that settles at the
  deadline or before is delivered.
\<close>

definition fetchWithSignal ::
  "env \<Rightarrow> string \<Rightarrow> string \<Rightarrow> nat \<Rightarrow> world \<Rightarrow> fetch_reply \<times> world" where
  "fetchWithSignal e url bearer deadline w =
     (case fetch e (fetchCalls w) url bearer of
        (latency, r) \<Rightarrow>
          (let w1 = emit (FetchCall url bearer None) (w\<lparr>fetchCalls := fetchCalls w + 1\<rparr>)
           in if deadline < latency
              then (Rejected \<lparr>name = ''AbortError'', message = ''The operation was aborted.''\<rparr>,
                    emit AbortSignal w1)
              else (r, w1)))"

text \<open>
  The \<open>catch\<close> and \<open>finally\<close> of the direct path (lines 94 to 101 of veo3Service.ts,
  the same in the image service).
\<close>

definition directCatch :: "js_error \<Rightarrow> js_error" where
  "directCatch err = (if name err = ''AbortError'' then timedOutError else err)"

text \<open>\<open>data.operations || []\<close>; reading \<open>operations\<close> of \<open>null\<close> throws.\<close>

definition operationsOf :: "json \<Rightarrow> js_error + string list" where
  "operationsOf data =
     (case data of
        JNull \<Rightarrow> Inl (TypeError ''Cannot read properties of null (reading 'operations')'')
      | JObj d \<Rightarrow> Inr (case operations d of None \<Rightarrow> [] | Some ops \<Rightarrow> ops))"

text \<open>The environment as it was when the service modules were loaded.\<close>

definition atLoad :: "env \<Rightarrow> env" where
  "atLoad e = e\<lparr>selectedProxyServer := selectedProxyServerAtLoad e\<rparr>"

text \<open>\<open>PROXY_BASE_URL\<close> of veo3Service.ts (line 22) and of the image service.\<close>

definition veoBaseUrl :: "env \<Rightarrow> string" where
  "veoBaseUrl e = getVeoProxyUrl (atLoad e) @ ''/api/veo''"

definition imagenBaseUrl :: "env \<Rightarrow> string" where
  "imagenBaseUrl e = getImagenProxyUrl (atLoad e) @ ''/api/imagen''"


text \<open>
  \<open>generateVideoWithVeo3(request)\<close>: \<open>Inr (operations, successfulToken)\<close> or the error
  thrown; \<open>None\<close> when the call never returns.
\<close>

definition generateVideoWithVeo3 ::
  "env \<Rightarrow> generation_request \<Rightarrow> world \<Rightarrow> ((js_error + string list \<times> string) \<times> world) option" where
  "generateVideoWithVeo3 e request w =
     (let isImageToVideo = (imageMediaId request \<noteq> []);
          w0 = drawSeed request w;
          url = veoBaseUrl e @ (if isImageToVideo then ''/generate-i2v'' else ''/generate-t2v'')
      in if authToken request \<noteq> [] then
           (let w1 = emit (SetTimeout 15000) w0
            in case fetchWithSignal e url (authToken request) 15000 w1 of
                 (r, w2) \<Rightarrow>
                   (let w3 = emit ClearTimeout w2
                    in case interpretReply r of
                         Inl err \<Rightarrow> Some (Inl (directCatch err), w3)
                       | Inr data \<Rightarrow>
                           (case operationsOf data of
                              Inl err \<Rightarrow> Some (Inl (directCatch err), w3)
                            | Inr ops \<Rightarrow> Some (Inr (ops, authToken request), w3))))
         else
           (case fetchWithTokenRotation e url (if isImageToVideo then ''VEO I2V'' else ''VEO T2V'')
                   None False w0 of
              None \<Rightarrow> None
            | Some (Inl err, w1) \<Rightarrow> Some (Inl err, w1)
            | Some (Inr (data, successfulToken), w1) \<Rightarrow>
                (case operationsOf data of
                   Inl err \<Rightarrow> Some (Inl err, w1)
                 | Inr ops \<Rightarrow> Some (Inr (ops, successfulToken), w1))))"

text \<open>
  \<open>generateImageWithImagen(request)\<close> (lines 280 to 335 of the file apiClient.ts, which
  holds the image service too) returns the response body. On the rotation path
  the log line reads \<open>result.imagePanels\<close>, which throws when the body is \<open>null\<close>.
\<close>

definition generateImageWithImagen ::
  "env \<Rightarrow> generation_request \<Rightarrow> world \<Rightarrow> ((js_error + json) \<times> world) option" where
  "generateImageWithImagen e request w =
     (let w0 = drawSeed request w;
          url = imagenBaseUrl e @ ''/generate''
      in if authToken request \<noteq> [] then
           (let w1 = emit (SetTimeout 15000) w0
            in case fetchWithSignal e url (authToken request) 15000 w1 of
                 (r, w2) \<Rightarrow>
                   (let w3 = emit ClearTimeout w2
                    in case interpretReply r of
                         Inl err \<Rightarrow> Some (Inl (directCatch err), w3)
                       | Inr data \<Rightarrow> Some (Inr data, w3)))
         else
           (case fetchWithTokenRotation e url ''IMAGEN GENERATE'' None False w0 of
              None \<Rightarrow> None
            | Some (Inl err, w1) \<Rightarrow> Some (Inl err, w1)
            | Some (Inr (data, successfulToken), w1) \<Rightarrow>
                (case data of
                   JNull \<Rightarrow>
                     Some (Inl (TypeError ''Cannot read properties of null (reading 'imagePanels')''), w1)
                 | JObj d \<Rightarrow> Some (Inr data, w1))))"

section \<open>Notions used in the statements\<close>

text \<open>
  Structural success, in the words of the specification: the response has an HTTP
  success status and its body parses. The result is the parsed body.
\<close>

definition structuralSuccess :: "fetch_reply \<Rightarrow> json option" where
  "structuralSuccess r =
     (case r of
        Rejected err \<Rightarrow> None
      | Resolved response \<Rightarrow>
          if ok response then (case body response of Unparseable err \<Rightarrow> None | Parsed data \<Rightarrow> Some data)
          else None)"

text \<open>The events of the admission phase, and those of the credential store.\<close>

fun isAdmissionEvent :: "event \<Rightarrow> bool" where
  "isAdmissionEvent (StatusUpdate s) = True"
| "isAdmissionEvent (GateCall c s r) = True"
| "isAdmissionEvent (Sleep ms) = True"
| "isAdmissionEvent ev = False"

fun isStoreEvent :: "event \<Rightarrow> bool" where
  "isStoreEvent RefillCall = True"
| "isStoreEvent (SetSessionTokens ts) = True"
| "isStoreEvent ev = False"

text \<open>The state after one transport call that appended the events \<open>evs\<close>.\<close>

definition advance :: "event list \<Rightarrow> world \<Rightarrow> world" where
  "advance evs w = w\<lparr>fetchCalls := fetchCalls w + 1, trace := trace w @ evs\<rparr>"

text \<open>One denied poll of the gate: the state it leaves, and the events it appends.\<close>

definition denied :: "bool \<Rightarrow> string \<Rightarrow> world \<Rightarrow> world" where
  "denied cb s w =
     emit (Sleep 2000)
       (onStatusUpdate cb ''Mencuba semula untuk mendapatkan slot dalam 2 saat...''
          (emit (GateCall 10 s (GateData False)) (w\<lparr>gateCalls := gateCalls w + 1\<rparr>)))"

definition deniedEvents :: "bool \<Rightarrow> string \<Rightarrow> event list" where
  "deniedEvents cb s =
     GateCall 10 s (GateData False) #
     (if cb then [StatusUpdate ''Mencuba semula untuk mendapatkan slot dalam 2 saat...''] else []) @
     [Sleep 2000]"

text \<open>
  What a refill puts into the shared pool: the credentials fetched, once they are
  written to the session storage; nothing when the fetch throws or returns \<open>null\<close> or
  no credential, and nothing when the write throws. Then the shared pool a call works
  with (the stored credentials or, when none is stored, what the refill puts there),
  and the personal credential as a list.
\<close>

definition refilled :: "env \<Rightarrow> auth_token list" where
  "refilled e =
     (case getVeoAuthTokens e of
        RefillThrows err \<Rightarrow> []
      | RefillReturns None \<Rightarrow> []
      | RefillReturns (Some ts) \<Rightarrow> (case setItemError e ts of None \<Rightarrow> ts | Some err \<Rightarrow> []))"

definition sharedPool :: "env \<Rightarrow> world \<Rightarrow> auth_token list" where
  "sharedPool e w = (if veoAuthTokens w = [] then refilled e else veoAuthTokens w)"

definition personalList :: "env \<Rightarrow> auth_token list" where
  "personalList e = (case getPersonalToken e of None \<Rightarrow> [] | Some p \<Rightarrow> [p])"

text \<open>
  The events one iteration of the attempt loop appends up to the transport call, and
  those its \<open>catch\<close> block appends after a failure.
\<close>

definition attemptEvents :: "env \<Rightarrow> string \<Rightarrow> string \<Rightarrow> bool \<Rightarrow> nat \<Rightarrow> auth_token \<Rightarrow> event list" where
  "attemptEvents e endpoint logContext cb i t =
     (if cb then [StatusUpdate (''Attempting generation with '' @ tokenIdentifier e i t @ ''...'')] else []) @
     [LogEntry \<lparr>log_model = logContext, log_prompt = ''Attempt with '' @ tokenIdentifier e i t,
                log_output = ''...'' @ slice_last6 (token t), log_tokenCount = 0,
                log_status = Success, log_error = None\<rparr>,
      FetchCall endpoint (token t) (Some (usernameHeader e))]"

definition failureEvents :: "env \<Rightarrow> string \<Rightarrow> nat \<Rightarrow> auth_token \<Rightarrow> js_error \<Rightarrow> event list" where
  "failureEvents e logContext i t err =
     LogEntry \<lparr>log_model = logContext, log_prompt = tokenIdentifier e i t @ '' failed'',
               log_output = message err, log_tokenCount = 0, log_status = Failure,
               log_error = Some (message err)\<rparr> #
     (if createdAt t = ''personal'' then [BusDispatch ''personalTokenFailed''] else [])"

text \<open>The trace of a run; empty when the run does not return.\<close>

definition traceOf :: "('r \<times> world) option \<Rightarrow> event list" where
  "traceOf run = (case run of None \<Rightarrow> [] | Some (r, w) \<Rightarrow> trace w)"

text \<open>The aggregate telemetry entry of lines 208 to 209.\<close>

definition aggregateEntry :: "string \<Rightarrow> js_error \<Rightarrow> log_entry" where
  "aggregateEntry logContext err =
     \<lparr>log_model = logContext, log_prompt = ''All available auth tokens failed.'',
      log_output = ''Final error: '' @ message err, log_tokenCount = 0,
      log_status = Failure, log_error = Some (message err)\<rparr>"

text \<open>The addresses the two generation calls post to.\<close>

definition veoUrl :: "env \<Rightarrow> generation_request \<Rightarrow> string" where
  "veoUrl e request =
     veoBaseUrl e @ (if imageMediaId request \<noteq> [] then ''/generate-i2v'' else ''/generate-t2v'')"

definition imagenUrl :: "env \<Rightarrow> string" where
  "imagenUrl e = imagenBaseUrl e @ ''/generate''"

text \<open>The gate events, the waits and the transport calls of a trace, in order.\<close>

definition gateSleepFetch :: "event list \<Rightarrow> event list" where
  "gateSleepFetch evs = filter (\<lambda>ev. isGate ev \<or> isSleep ev \<or> isFetch ev) evs"

subsection \<open>Concrete runs\<close>

definition sharedA :: auth_token where
  "sharedA = \<lparr>token = ''ya29.shared-A'', createdAt = ''2025-01-01T00:00:00Z''\<rparr>"

definition sharedB :: auth_token where
  "sharedB = \<lparr>token = ''ya29.shared-B'', createdAt = ''2025-01-02T00:00:00Z''\<rparr>"

definition annUser :: user where
  "annUser = \<lparr>user_id = ''u-1'', username = ''ann'', personalAuthToken = ''ya29.personal''\<rparr>"

definition okBody :: json where
  "okBody = JObj \<lparr>error_message = None, data_message = None, operations = Some [''op-1''],
                  payload = ''{}''\<rparr>"

definition replyOk :: "nat \<times> fetch_reply" where
  "replyOk = (120, Resolved \<lparr>status = 200, body = Parsed okBody\<rparr>)"

definition invalidTokenBody :: json_obj where
  "invalidTokenBody = \<lparr>error_message = Some ''Invalid token'', data_message = None,
                        operations = None, payload = ''{}''\<rparr>"

definition replyUnauthorized :: "nat \<times> fetch_reply" where
  "replyUnauthorized = (80, Resolved \<lparr>status = 401, body = Parsed (JObj invalidTokenBody)\<rparr>)"

definition replyOffline :: "nat \<times> fetch_reply" where
  "replyOffline = (5, Rejected (TypeError ''Failed to fetch''))"

text \<open>A refusal by the server that carries the text of a gate failure.\<close>

definition gateTextBody :: json_obj where
  "gateTextBody =
     \<lparr>error_message = Some ''Database error while requesting a generation slot: connection refused'',
      data_message = None, operations = None, payload = ''{}''\<rparr>"

definition replyGateText :: "nat \<times> fetch_reply" where
  "replyGateText = (80, Resolved \<lparr>status = 500, body = Parsed (JObj gateTextBody)\<rparr>)"

definition veoT2vUrl :: string where
  "veoT2vUrl = ''https://veox.monoklix.com/api/veo/generate-t2v''"

definition imagenGenerateUrl :: string where
  "imagenGenerateUrl = ''https://gemx.monoklix.com/api/imagen/generate''"

text \<open>
  An environment in which nothing works: no user, a gate that grants at once, a refill
  that returns \<open>null\<close>, a transport that answers 401. The runs below change one part of it.
\<close>

definition env0 :: env where
  "env0 = \<lparr>selectedProxyServer = [], selectedProxyServerAtLoad = [], production = True,
            currentUser = None, gate = (\<lambda>k. GateData True), randomFloor = (\<lambda>k n. 0),
            getVeoAuthTokens = RefillReturns None, setItemError = (\<lambda>ts. None),
            fetch = (\<lambda>k url bearer. replyUnauthorized)\<rparr>"

text \<open>The personal credential is refused, the shared one is accepted.\<close>

definition envSecondWins :: env where
  "envSecondWins = env0\<lparr>currentUser := Some annUser,
     fetch := (\<lambda>k url bearer. if bearer = ''ya29.shared-A'' then replyOk else replyUnauthorized)\<rparr>"

text \<open>The gate denies once, then the database fails.\<close>

definition envGateFails :: env where
  "envGateFails = env0\<lparr>gate := (\<lambda>k. if k = 0 then GateData False else GateError ''connection refused'')\<rparr>"

text \<open>The gate grants at once; the server refuses with the text of a gate failure.\<close>

definition envGateText :: env where
  "envGateText = env0\<lparr>fetch := (\<lambda>k url bearer. replyGateText)\<rparr>"

text \<open>The network is down: the transport rejects at once.\<close>

definition envOffline :: env where
  "envOffline = env0\<lparr>fetch := (\<lambda>k url bearer. replyOffline)\<rparr>"

text \<open>Every attempt is refused: the personal credential, then one shared credential.\<close>

definition envAllFail :: env where
  "envAllFail = env0\<lparr>currentUser := Some annUser\<rparr>"

text \<open>A shared credential whose \<open>createdAt\<close> is the string \<open>personal\<close>.\<close>

definition sharedTagged :: auth_token where
  "sharedTagged = \<lparr>token = ''ya29.shared-T'', createdAt = ''personal''\<rparr>"

text \<open>A shared credential with the value of the personal credential of \<open>annUser\<close>.\<close>

definition sharedDup :: auth_token where
  "sharedDup = \<lparr>token = ''ya29.personal'', createdAt = ''2025-01-03T00:00:00Z''\<rparr>"



definition statusUrl :: string where
  "statusUrl = ''https://veox.monoklix.com/api/veo/status''"

definition uploadUrl :: string where
  "uploadUrl = ''https://veox.monoklix.com/api/veo/upload''"

text \<open>A direct call and a rotated call to the video service.\<close>

definition directRequest :: generation_request where
  "directRequest = \<lparr>prompt = ''test'', imageMediaId = [], authToken = ''ya29.explicit'', seed = Some 7\<rparr>"

definition textToVideo :: generation_request where
  "textToVideo = \<lparr>prompt = ''a cat'', imageMediaId = [], authToken = [], seed = Some 7\<rparr>"

definition imageToVideo :: generation_request where
  "imageToVideo = \<lparr>prompt = ''a cat'', imageMediaId = ''media-1'', authToken = [], seed = Some 7\<rparr>"

text \<open>The transport settles after 20 seconds.\<close>

definition envLate :: env where
  "envLate = env0\<lparr>fetch := (\<lambda>k url bearer. (20000, snd replyOk))\<rparr>"

text \<open>
  The transport answers in 80 milliseconds with status 500 and a body whose message is
  the text of the time-out error.
\<close>

definition envSameText :: env where
  "envSameText = env0\<lparr>fetch := (\<lambda>k url bearer.
     (80, Resolved \<lparr>status = 500,
                     body = Parsed (JObj \<lparr>error_message = None,
                                          data_message = Some ''Request timed out after 15 seconds.'',
                                          operations = None, payload = ''{}''\<rparr>)\<rparr>))\<rparr>"

text \<open>The gate denies every poll; the transport accepts every credential.\<close>

definition envGateClosed :: env where
  "envGateClosed = env0\<lparr>gate := (\<lambda>k. GateData False), fetch := (\<lambda>k url bearer. replyOk)\<rparr>"

section \<open>Properties\<close>

subsection \<open>State and trace bookkeeping\<close>

lemma emit_fields [simp]:
  "trace (emit ev w) = trace w @ [ev]"
  "gateCalls (emit ev w) = gateCalls w"
  "randCalls (emit ev w) = randCalls w"
  "fetchCalls (emit ev w) = fetchCalls w"
  "veoAuthTokens (emit ev w) = veoAuthTokens w"
  by (simp_all add: emit_def)

lemma onStatusUpdate_fields [simp]:
  "gateCalls (onStatusUpdate cb s w) = gateCalls w"
  "randCalls (onStatusUpdate cb s w) = randCalls w"
  "fetchCalls (onStatusUpdate cb s w) = fetchCalls w"
  "veoAuthTokens (onStatusUpdate cb s w) = veoAuthTokens w"
  by (simp_all add: onStatusUpdate_def)

lemma onStatusUpdate_trace:
  "trace (onStatusUpdate cb s w) = trace w @ (if cb then [StatusUpdate s] else [])"
  by (simp add: onStatusUpdate_def)

lemma addLogEntry_fields [simp]:
  "trace (addLogEntry le w) = trace w @ [LogEntry le]"
  "gateCalls (addLogEntry le w) = gateCalls w"
  "randCalls (addLogEntry le w) = randCalls w"
  "fetchCalls (addLogEntry le w) = fetchCalls w"
  "veoAuthTokens (addLogEntry le w) = veoAuthTokens w"
  by (simp_all add: addLogEntry_def)

lemma interpretReply_Inr: "interpretReply r = Inr d \<longleftrightarrow> structuralSuccess r = Some d"
  by (auto simp: interpretReply_def structuralSuccess_def split: fetch_reply.splits body.splits json.splits)

lemma interpretReply_Inl: "structuralSuccess r = None \<Longrightarrow> \<exists>err. interpretReply r = Inl err"
  by (cases "interpretReply r") (auto simp: interpretReply_Inr)

lemma advance_fields [simp]:
  "trace (advance evs w) = trace w @ evs"
  "fetchCalls (advance evs w) = fetchCalls w + 1"
  "gateCalls (advance evs w) = gateCalls w"
  "randCalls (advance evs w) = randCalls w"
  "veoAuthTokens (advance evs w) = veoAuthTokens w"
  by (simp_all add: advance_def)

subsection \<open>The text of an API error\<close>

text \<open>
  \<open>data.error.message\<close> comes first, then \<open>data.message\<close>, then the status; an empty
  text counts as absent.
\<close>

lemma apiErrorMessage_cases:
  "apiErrorMessage \<lparr>error_message = Some ''quota'', data_message = Some ''busy'',
                     operations = None, payload = []\<rparr> 429 = ''quota''"
  "apiErrorMessage \<lparr>error_message = Some [], data_message = Some ''busy'',
                     operations = None, payload = []\<rparr> 429 = ''busy''"
  "apiErrorMessage \<lparr>error_message = None, data_message = None,
                     operations = None, payload = []\<rparr> 503 = ''API call failed (503)''"
  by code_simp+

subsection \<open>The attempt loop, one iteration at a time\<close>

lemma attemptLoop_success_step:
  assumes "interpretReply (snd (fetch e (fetchCalls w) endpoint (token t))) = Inr d"
  shows "attemptLoop e endpoint logContext cb i (t # rest) le w =
           (Inr (d, token t), advance (attemptEvents e endpoint logContext cb i t) w)"
  using assms
  by (simp add: tryFetch_def Let_def attemptEvents_def onStatusUpdate_def emit_def
      addLogEntry_def advance_def)

lemma attemptLoop_failure_step:
  assumes "interpretReply (snd (fetch e (fetchCalls w) endpoint (token t))) = Inl err"
  shows "attemptLoop e endpoint logContext cb i (t # rest) le w =
           attemptLoop e endpoint logContext cb (i + 1) rest (Some err)
             (advance (attemptEvents e endpoint logContext cb i t @ failureEvents e logContext i t err) w)"
  using assms
  by (simp add: tryFetch_def Let_def attemptEvents_def failureEvents_def onStatusUpdate_def
      emit_def addLogEntry_def advance_def)

lemma attemptEvents_counts [simp]:
  "length (filter isFetch (attemptEvents e endpoint ctx cb i t)) = 1"
  "length (filter isLog (attemptEvents e endpoint ctx cb i t)) = 1"
  "filter isGate (attemptEvents e endpoint ctx cb i t) = []"
  "filter isBus (attemptEvents e endpoint ctx cb i t) = []"
  "filter isRefill (attemptEvents e endpoint ctx cb i t) = []"
  "concat (map bearerOf (attemptEvents e endpoint ctx cb i t)) = [token t]"
  by (simp_all add: attemptEvents_def)

lemma failureEvents_counts [simp]:
  "filter isFetch (failureEvents e ctx i t err) = []"
  "length (filter isLog (failureEvents e ctx i t err)) = 1"
  "filter isGate (failureEvents e ctx i t err) = []"
  "length (filter isBus (failureEvents e ctx i t err)) = (if createdAt t = ''personal'' then 1 else 0)"
  "filter isRefill (failureEvents e ctx i t err) = []"
  "concat (map bearerOf (failureEvents e ctx i t err)) = []"
  by (simp_all add: failureEvents_def)

lemma attemptLoop_first_success:
  assumes "k < length rest"
    and "\<forall>j<k. structuralSuccess (snd (fetch e (fetchCalls w + j) endpoint (token (rest ! j)))) = None"
    and "structuralSuccess (snd (fetch e (fetchCalls w + k) endpoint (token (rest ! k)))) = Some d"
  shows "\<exists>w'. attemptLoop e endpoint ctx cb i rest le w = (Inr (d, token (rest ! k)), w')
           \<and> countEv isFetch w' = countEv isFetch w + k + 1
           \<and> bearers w' = bearers w @ map token (take (k + 1) rest)
           \<and> fetchCalls w' = fetchCalls w + k + 1
           \<and> countEv isGate w' = countEv isGate w"
  using assms
proof (induction k arbitrary: rest i le w)
  case 0
  then obtain t ts where rest: "rest = t # ts" by (cases rest) auto
  with 0 have "interpretReply (snd (fetch e (fetchCalls w) endpoint (token t))) = Inr d"
    by (simp add: interpretReply_Inr)
  from attemptLoop_success_step[OF this] show ?case
    by (simp add: rest countEv_def bearers_def)
next
  case (Suc k)
  then obtain t ts where rest: "rest = t # ts" by (cases rest) auto
  from Suc.prems(2) have "structuralSuccess (snd (fetch e (fetchCalls w) endpoint (token t))) = None"
    using rest by force
  then obtain err where err: "interpretReply (snd (fetch e (fetchCalls w) endpoint (token t))) = Inl err"
    using interpretReply_Inl by blast
  define w1 where "w1 = advance (attemptEvents e endpoint ctx cb i t @ failureEvents e ctx i t err) w"
  have step: "attemptLoop e endpoint ctx cb i rest le w = attemptLoop e endpoint ctx cb (i + 1) ts (Some err) w1"
    unfolding rest w1_def by (rule attemptLoop_failure_step[OF err])
  have k: "k < length ts" using Suc.prems(1) rest by simp
  have fails: "\<forall>j<k. structuralSuccess (snd (fetch e (fetchCalls w1 + j) endpoint (token (ts ! j)))) = None"
  proof (intro allI impI)
    fix j assume "j < k"
    then have "Suc j < Suc k" by simp
    with Suc.prems(2) have "structuralSuccess (snd (fetch e (fetchCalls w + Suc j) endpoint (token (rest ! Suc j)))) = None"
      by blast
    then show "structuralSuccess (snd (fetch e (fetchCalls w1 + j) endpoint (token (ts ! j)))) = None"
      by (simp add: rest w1_def)
  qed
  have succ: "structuralSuccess (snd (fetch e (fetchCalls w1 + k) endpoint (token (ts ! k)))) = Some d"
    using Suc.prems(3) by (simp add: rest w1_def)
  from Suc.IH[OF k fails succ, of "i + 1" "Some err"] obtain w' where
    run: "attemptLoop e endpoint ctx cb (i + 1) ts (Some err) w1 = (Inr (d, token (ts ! k)), w')"
    and cnt: "countEv isFetch w' = countEv isFetch w1 + k + 1"
    and bs: "bearers w' = bearers w1 @ map token (take (k + 1) ts)"
    and fc: "fetchCalls w' = fetchCalls w1 + k + 1"
    and gc: "countEv isGate w' = countEv isGate w1"
    by blast
  have "countEv isFetch w1 = countEv isFetch w + 1" "bearers w1 = bearers w @ [token t]"
    "countEv isGate w1 = countEv isGate w"
    by (simp_all add: w1_def countEv_def bearers_def)
  with run cnt bs fc gc step show ?case
    by (simp add: rest w1_def)
qed

subsection \<open>Admission\<close>

lemma acquireSlot_events:
  assumes "acquireSlot e cb s w = Some y"
  shows "\<exists>evs. trace (snd y) = trace w @ evs \<and> (\<forall>ev\<in>set evs. isAdmissionEvent ev)
           \<and> fetchCalls (snd y) = fetchCalls w \<and> randCalls (snd y) = randCalls w
           \<and> veoAuthTokens (snd y) = veoAuthTokens w"
proof (rule acquireSlot.raw_induct[where P = "\<lambda>e cb s w y.
           \<exists>evs. trace (snd y) = trace w @ evs \<and> (\<forall>ev\<in>set evs. isAdmissionEvent ev)
           \<and> fetchCalls (snd y) = fetchCalls w \<and> randCalls (snd y) = randCalls w
           \<and> veoAuthTokens (snd y) = veoAuthTokens w", OF _ assms], goal_cases)
  case (1 acquireSlot e cb s w y)
  show ?case
  proof (cases "gate e (gateCalls w)")
    case (GateError m)
    with 1(2) have "y = (Inl (Error (gateErrorMessage m)),
        onStatusUpdate cb [] (emit (GateCall 10 s (GateError m)) (w\<lparr>gateCalls := gateCalls w + 1\<rparr>)))"
      by (simp add: Let_def)
    then show ?thesis
      by (cases cb) (simp_all add: onStatusUpdate_def)
  next
    case (GateData acquired)
    show ?thesis
    proof (cases acquired)
      case True
      with GateData 1(2) have "y = (Inr (), emit (GateCall 10 s (GateData True)) (w\<lparr>gateCalls := gateCalls w + 1\<rparr>))"
        by (simp add: Let_def)
      then show ?thesis by simp
    next
      case False
      define w2 where "w2 = emit (Sleep 2000)
          (onStatusUpdate cb ''Mencuba semula untuk mendapatkan slot dalam 2 saat...''
             (emit (GateCall 10 s (GateData False)) (w\<lparr>gateCalls := gateCalls w + 1\<rparr>)))"
      from False GateData 1(2) have "acquireSlot e cb s w2 = Some y"
        by (simp add: Let_def w2_def)
      from 1(1)[OF this] obtain evs where evs: "trace (snd y) = trace w2 @ evs"
        "\<forall>ev\<in>set evs. isAdmissionEvent ev" "fetchCalls (snd y) = fetchCalls w2"
        "randCalls (snd y) = randCalls w2" "veoAuthTokens (snd y) = veoAuthTokens w2"
        by blast
      have "\<exists>pre. trace w2 = trace w @ pre \<and> (\<forall>ev\<in>set pre. isAdmissionEvent ev)"
        by (simp add: w2_def onStatusUpdate_def)
      then obtain pre where pre: "trace w2 = trace w @ pre" "\<forall>ev\<in>set pre. isAdmissionEvent ev"
        by blast
      have "trace (snd y) = trace w @ (pre @ evs)" using evs(1) pre(1) by simp
      moreover have "\<forall>ev\<in>set (pre @ evs). isAdmissionEvent ev" using evs(2) pre(2) by auto
      moreover have "fetchCalls w2 = fetchCalls w" "randCalls w2 = randCalls w"
        "veoAuthTokens w2 = veoAuthTokens w" by (simp_all add: w2_def)
      ultimately show ?thesis using evs(3,4,5) by metis
    qed
  qed
qed

lemma admission_events:
  assumes "admission e endpoint ctx cb w = Some y"
  shows "\<exists>evs. trace (snd y) = trace w @ evs \<and> (\<forall>ev\<in>set evs. isAdmissionEvent ev)
           \<and> fetchCalls (snd y) = fetchCalls w \<and> randCalls (snd y) = randCalls w
           \<and> veoAuthTokens (snd y) = veoAuthTokens w"
proof (cases "isGenerationRequest ctx")
  case False
  with assms show ?thesis by (auto simp: admission_def)
next
  case True
  define w1 where "w1 = onStatusUpdate cb
      ''Semua slot sedang digunakan. Anda berada dalam barisan menunggu...'' w"
  define s where "s = slotServerUrl e endpoint"
  from assms True obtain y1 where y1: "acquireSlot e cb s w1 = Some y1"
    by (auto simp: admission_def Let_def w1_def s_def split: option.splits)
  from acquireSlot_events[OF y1] obtain evs where evs: "trace (snd y1) = trace w1 @ evs"
    "\<forall>ev\<in>set evs. isAdmissionEvent ev" "fetchCalls (snd y1) = fetchCalls w1"
    "randCalls (snd y1) = randCalls w1" "veoAuthTokens (snd y1) = veoAuthTokens w1"
    by blast
  have w1: "trace w1 = trace w @ (if cb then [StatusUpdate ''Semua slot sedang digunakan. Anda berada dalam barisan menunggu...''] else [])"
    "fetchCalls w1 = fetchCalls w" "randCalls w1 = randCalls w" "veoAuthTokens w1 = veoAuthTokens w"
    by (simp_all add: w1_def onStatusUpdate_def)
  obtain r1 wy1 where p: "y1 = (r1, wy1)" by (cases y1)
  show ?thesis
  proof (cases r1)
    case (Inl err)
    with assms True y1 p have "y = (Inl err, wy1)"
      by (simp add: admission_def Let_def w1_def s_def)
    with evs w1 p show ?thesis by (auto intro!: exI[where x = "(if cb then [StatusUpdate ''Semua slot sedang digunakan. Anda berada dalam barisan menunggu...''] else []) @ evs"])
  next
    case (Inr u)
    with assms True y1 p have "y = (Inr (), onStatusUpdate cb ''Slot berjaya diperoleh. Memulakan penjanaan...'' wy1)"
      by (simp add: admission_def Let_def w1_def s_def)
    with evs w1 p show ?thesis
      by (auto simp: onStatusUpdate_def intro!: exI[where x = "(if cb then [StatusUpdate ''Semua slot sedang digunakan. Anda berada dalam barisan menunggu...''] else []) @ evs @ (if cb then [StatusUpdate ''Slot berjaya diperoleh. Memulakan penjanaan...''] else [])"])
  qed
qed

lemma admission_events_filtered:
  assumes "\<forall>ev\<in>set evs. isAdmissionEvent ev"
  shows "filter isFetch evs = []" "filter isLog evs = []" "filter isBus evs = []"
    "filter isRefill evs = []" "concat (map bearerOf evs) = []"
  using assms
proof (induction evs)
  case Nil
  { case 1 show ?case by simp next case 2 show ?case by simp next case 3 show ?case by simp
    next case 4 show ?case by simp next case 5 show ?case by simp }
next
  case (Cons ev evs)
  { case 1 then show ?case using Cons.IH(1) by (cases ev) auto
    next case 2 then show ?case using Cons.IH(2) by (cases ev) auto
    next case 3 then show ?case using Cons.IH(3) by (cases ev) auto
    next case 4 then show ?case using Cons.IH(4) by (cases ev) auto
    next case 5 then show ?case using Cons.IH(5) by (cases ev) auto }
qed

lemma admission_counts:
  assumes "admission e endpoint ctx cb w = Some (r, w1)"
  shows "countEv isFetch w1 = countEv isFetch w" "countEv isLog w1 = countEv isLog w"
    "countEv isBus w1 = countEv isBus w" "countEv isRefill w1 = countEv isRefill w"
    "bearers w1 = bearers w" "fetchCalls w1 = fetchCalls w" "randCalls w1 = randCalls w"
    "veoAuthTokens w1 = veoAuthTokens w" "filter isBus (trace w1) = filter isBus (trace w)"
proof -
  from admission_events[OF assms] obtain evs where evs: "trace w1 = trace w @ evs"
    "\<forall>ev\<in>set evs. isAdmissionEvent ev" and rest: "fetchCalls w1 = fetchCalls w"
    "randCalls w1 = randCalls w" "veoAuthTokens w1 = veoAuthTokens w"
    by auto
  show "countEv isFetch w1 = countEv isFetch w" "countEv isLog w1 = countEv isLog w"
    "countEv isBus w1 = countEv isBus w" "countEv isRefill w1 = countEv isRefill w"
    "bearers w1 = bearers w" "filter isBus (trace w1) = filter isBus (trace w)"
    using evs(1) admission_events_filtered[OF evs(2)] by (simp_all add: countEv_def bearers_def)
  show "fetchCalls w1 = fetchCalls w" "randCalls w1 = randCalls w"
    "veoAuthTokens w1 = veoAuthTokens w" using rest by simp_all
qed

lemma denied_fields [simp]:
  "trace (denied cb s w) = trace w @ deniedEvents cb s"
  "gateCalls (denied cb s w) = gateCalls w + 1"
  "fetchCalls (denied cb s w) = fetchCalls w"
  "randCalls (denied cb s w) = randCalls w"
  "veoAuthTokens (denied cb s w) = veoAuthTokens w"
  by (simp_all add: denied_def deniedEvents_def onStatusUpdate_def)

lemma denied_funpow_fields [simp]:
  "trace ((denied cb s ^^ n) w) = trace w @ concat (replicate n (deniedEvents cb s))"
  "gateCalls ((denied cb s ^^ n) w) = gateCalls w + n"
  "fetchCalls ((denied cb s ^^ n) w) = fetchCalls w"
  "randCalls ((denied cb s ^^ n) w) = randCalls w"
  "veoAuthTokens ((denied cb s ^^ n) w) = veoAuthTokens w"
  by (induction n) (simp_all add: replicate_append_same[symmetric] del: replicate_append_same)

lemma acquireSlot_denied_step:
  assumes "gate e (gateCalls w) = GateData False"
  shows "acquireSlot e cb s w = acquireSlot e cb s (denied cb s w)"
  by (subst acquireSlot.simps) (simp add: assms Let_def denied_def)

lemma acquireSlot_denied_n:
  assumes "\<forall>i<n. gate e (gateCalls w + i) = GateData False"
  shows "acquireSlot e cb s w = acquireSlot e cb s ((denied cb s ^^ n) w)"
  using assms
proof (induction n arbitrary: w)
  case 0
  show ?case by simp
next
  case (Suc n)
  from Suc.prems have first: "gate e (gateCalls w) = GateData False" by force
  have "\<forall>i<n. gate e (gateCalls (denied cb s w) + i) = GateData False"
  proof (intro allI impI)
    fix i assume "i < n"
    then have "Suc i < Suc n" by simp
    with Suc.prems have "gate e (gateCalls w + Suc i) = GateData False" by blast
    then show "gate e (gateCalls (denied cb s w) + i) = GateData False" by simp
  qed
  from Suc.IH[OF this] acquireSlot_denied_step[OF first, of cb s]
  show ?case by (simp add: funpow_swap1)
qed

lemma acquireSlot_error_now:
  assumes "gate e (gateCalls w) = GateError m"
  shows "acquireSlot e cb s w =
           Some (Inl (Error (gateErrorMessage m)),
                 onStatusUpdate cb [] (emit (GateCall 10 s (GateError m)) (w\<lparr>gateCalls := gateCalls w + 1\<rparr>)))"
  by (subst acquireSlot.simps) (simp add: assms Let_def)

lemma acquireSlot_granted_now:
  assumes "gate e (gateCalls w) = GateData True"
  shows "acquireSlot e cb s w =
           Some (Inr (), emit (GateCall 10 s (GateData True)) (w\<lparr>gateCalls := gateCalls w + 1\<rparr>))"
  by (subst acquireSlot.simps) (simp add: assms Let_def)

lemma filter_deniedEvents [simp]:
  "filter isGate (concat (replicate n (deniedEvents cb s))) = replicate n (GateCall 10 s (GateData False))"
  "filter isSleep (concat (replicate n (deniedEvents cb s))) = replicate n (Sleep 2000)"
  "filter isFetch (concat (replicate n (deniedEvents cb s))) = []"
  "filter isLog (concat (replicate n (deniedEvents cb s))) = []"
  "filter isRefill (concat (replicate n (deniedEvents cb s))) = []"
  by (induction n) (simp_all add: deniedEvents_def)

subsection \<open>Selection of the candidates\<close>

lemma store_events_filtered:
  assumes "\<forall>ev\<in>set evs. isStoreEvent ev"
  shows "filter isFetch evs = []" "filter isLog evs = []" "filter isBus evs = []"
    "filter isGate evs = []" "concat (map bearerOf evs) = []"
  using assms
proof (induction evs)
  case Nil
  { case 1 show ?case by simp next case 2 show ?case by simp next case 3 show ?case by simp
    next case 4 show ?case by simp next case 5 show ?case by simp }
next
  case (Cons ev evs)
  { case 1 then show ?case using Cons.IH(1) by (cases ev) auto
    next case 2 then show ?case using Cons.IH(2) by (cases ev) auto
    next case 3 then show ?case using Cons.IH(3) by (cases ev) auto
    next case 4 then show ?case using Cons.IH(4) by (cases ev) auto
    next case 5 then show ?case using Cons.IH(5) by (cases ev) auto }
qed

lemma refillTokens_spec:
  "fst (refillTokens e w) = refilled e"
  "fetchCalls (snd (refillTokens e w)) = fetchCalls w"
  "gateCalls (snd (refillTokens e w)) = gateCalls w"
  "randCalls (snd (refillTokens e w)) = randCalls w"
  "trace (snd (refillTokens e w)) =
     trace w @ RefillCall # (if refilled e = [] then [] else [SetSessionTokens (refilled e)])"
  "veoAuthTokens (snd (refillTokens e w)) = (if refilled e = [] then veoAuthTokens w else refilled e)"
  by (simp_all add: refillTokens_def refilled_def Let_def split: refill_reply.splits option.splits)

lemma floorRandom_range: "0 < n \<Longrightarrow> floorRandom e k n < n"
  by (simp add: floorRandom_def)

lemma shuffle_mset:
  assumes "\<forall>k n. 0 < n \<longrightarrow> rnd k n < n" "n < length xs \<or> n = 0"
  shows "mset (fst (shuffle rnd n xs k)) = mset xs"
  using assms(2)
proof (induction n arbitrary: xs k)
  case 0
  show ?case by simp
next
  case (Suc n)
  then have i: "Suc n < length xs" by simp
  define j where "j = rnd k (Suc n + 1)"
  have "j < Suc n + 1" unfolding j_def using assms(1) by simp
  with i have j: "j < length xs" by simp
  define ys where "ys = xs[Suc n := xs ! j, j := xs ! Suc n]"
  have ys: "mset ys = mset xs" unfolding ys_def using mset_swap[OF j i] by simp
  have "n < length ys \<or> n = 0" using i by (simp add: ys_def)
  from Suc.IH[OF this] have "mset (fst (shuffle rnd n ys (Suc k))) = mset ys" .
  with ys show ?case by (simp add: Let_def j_def ys_def)
qed

lemma shuffle_count: "snd (shuffle rnd n xs k) = k + n"
  by (induction n arbitrary: xs k) (simp_all add: Let_def)



lemma shuffleTokens_spec:
  "mset (fst (shuffleTokens e ts w)) = mset ts"
  "snd (shuffleTokens e ts w) = w\<lparr>randCalls := randCalls w + (length ts - 1)\<rparr>"
proof -
  have r: "\<forall>k n. 0 < n \<longrightarrow> floorRandom e k n < n" using floorRandom_range by blast
  have n: "length ts - 1 < length ts \<or> length ts - 1 = 0" by (cases ts) auto
  show "mset (fst (shuffleTokens e ts w)) = mset ts"
    using shuffle_mset[OF r n, of "randCalls w"]
    by (auto simp: shuffleTokens_def split: prod.splits)
  show "snd (shuffleTokens e ts w) = w\<lparr>randCalls := randCalls w + (length ts - 1)\<rparr>"
    using shuffle_count[of "floorRandom e" "length ts - 1" ts "randCalls w"]
    by (auto simp: shuffleTokens_def split: prod.splits)
qed


lemma rotationTokens_spec:
  "\<exists>shared' w'. rotationTokens e w = (personalList e @ shared', w')
     \<and> mset shared' = mset (sharedPool e w)
     \<and> fetchCalls w' = fetchCalls w \<and> gateCalls w' = gateCalls w
     \<and> trace w' = trace w @ (if veoAuthTokens w = [] then
           RefillCall # (if refilled e = [] then [] else [SetSessionTokens (refilled e)]) else [])
     \<and> veoAuthTokens w' = sharedPool e w
     \<and> (if veoAuthTokens w = [] then shared' = refilled e
         else shared' = fst (shuffleTokens e (veoAuthTokens w) w))"
proof -
  obtain sh w1 where sh: "shuffleTokens e (getSharedTokens w) w = (sh, w1)"
    by (cases "shuffleTokens e (getSharedTokens w) w")
  from shuffleTokens_spec[of e "getSharedTokens w" w] sh
  have m: "mset sh = mset (veoAuthTokens w)"
    and w1: "w1 = w\<lparr>randCalls := randCalls w + (length (veoAuthTokens w) - 1)\<rparr>"
    by (simp_all add: getSharedTokens_def)
  have empty: "sh = [] \<longleftrightarrow> veoAuthTokens w = []"
    using m by (metis mset_zero_iff)
  show ?thesis
  proof (cases "veoAuthTokens w = []")
    case True
    with empty have "sh = []" by simp
    then have "rotationTokens e w = (personalList e @ fst (refillTokens e w1), snd (refillTokens e w1))"
      using sh by (simp add: rotationTokens_def personalList_def Let_def split: prod.splits)
    then show ?thesis
      using True by (simp add: refillTokens_spec sharedPool_def w1)
  next
    case False
    with empty have "sh \<noteq> []" by simp
    then have "rotationTokens e w = (personalList e @ sh, w1)"
      using sh by (simp add: rotationTokens_def personalList_def Let_def)
    then show ?thesis
      using False m sh by (simp add: sharedPool_def w1 getSharedTokens_def)
  qed
qed


lemma selectTokens_explicit:
  "t \<noteq> [] \<Longrightarrow> selectTokens e (Some t) w = ([\<lparr>token = t, createdAt = ''N/A''\<rparr>], w)"
  by (simp add: selectTokens_def)

lemma selectTokens_rotation:
  "specificToken = None \<or> specificToken = Some [] \<Longrightarrow> selectTokens e specificToken w = rotationTokens e w"
  by (auto simp: selectTokens_def)

lemma selectTokens_trace:
  assumes "selectTokens e specificToken w = (cs, w')"
  shows "fetchCalls w' = fetchCalls w \<and> gateCalls w' = gateCalls w
     \<and> (\<exists>evs. trace w' = trace w @ evs \<and> (\<forall>ev\<in>set evs. isStoreEvent ev))"
proof (cases "specificToken = None \<or> specificToken = Some []")
  case True
  from rotationTokens_spec[of e w] obtain shared' w'' where
    r: "rotationTokens e w = (personalList e @ shared', w'')"
    "fetchCalls w'' = fetchCalls w" "gateCalls w'' = gateCalls w"
    "trace w'' = trace w @ (if veoAuthTokens w = [] then
           RefillCall # (if refilled e = [] then [] else [SetSessionTokens (refilled e)]) else [])"
    by blast
  with assms True have "w' = w''" by (simp add: selectTokens_rotation)
  with r show ?thesis by auto
next
  case False
  then obtain t where "specificToken = Some t" "t \<noteq> []" by (cases specificToken) auto
  with assms show ?thesis by (simp add: selectTokens_explicit)
qed

lemma selectTokens_counts:
  assumes "selectTokens e specificToken w = (cs, w')"
  shows "fetchCalls w' = fetchCalls w" "countEv isFetch w' = countEv isFetch w"
    "countEv isLog w' = countEv isLog w" "countEv isBus w' = countEv isBus w"
    "countEv isGate w' = countEv isGate w" "bearers w' = bearers w"
    "filter isBus (trace w') = filter isBus (trace w)"
proof -
  from selectTokens_trace[OF assms] obtain evs where
    evs: "trace w' = trace w @ evs" "\<forall>ev\<in>set evs. isStoreEvent ev"
    and fc: "fetchCalls w' = fetchCalls w" by blast
  show "fetchCalls w' = fetchCalls w" by (rule fc)
  show "countEv isFetch w' = countEv isFetch w" "countEv isLog w' = countEv isLog w"
    "countEv isBus w' = countEv isBus w" "countEv isGate w' = countEv isGate w"
    "bearers w' = bearers w" "filter isBus (trace w') = filter isBus (trace w)"
    using evs(1) store_events_filtered[OF evs(2)] by (simp_all add: countEv_def bearers_def)
qed

subsection \<open>Rotation stops at the first success\<close>

text \<open>
  Claim C1. Take any call that passes admission and builds a non-empty candidate list.
  If the attempt with candidate \<open>k\<close> is the first whose response has a success status
  and a body that parses, the call returns that body paired with the credential value of
  candidate \<open>k\<close>. The transport is called \<open>k + 1\<close> times, with the credentials of the
  candidates up to \<open>k\<close> in order, and with none after it.
\<close>

theorem first_success_stops_rotation:
  assumes adm: "admission e endpoint logContext cb w = Some (Inr (), w1)"
    and sel: "selectTokens e specificToken w1 = (tokensToTry, w2)"
    and k: "k < length tokensToTry"
    and fails: "\<forall>j<k. structuralSuccess
                  (snd (fetch e (fetchCalls w + j) endpoint (token (tokensToTry ! j)))) = None"
    and succ: "structuralSuccess
                  (snd (fetch e (fetchCalls w + k) endpoint (token (tokensToTry ! k)))) = Some d"
  shows "\<exists>w'. fetchWithTokenRotation e endpoint logContext specificToken cb w =
                 Some (Inr (d, token (tokensToTry ! k)), w')
           \<and> countEv isFetch w' = countEv isFetch w + (k + 1)
           \<and> bearers w' = bearers w @ map token (take (k + 1) tokensToTry)"
proof -
  have fc: "fetchCalls w2 = fetchCalls w"
    using admission_counts(6)[OF adm] selectTokens_counts(1)[OF sel] by simp
  have cnt: "countEv isFetch w2 = countEv isFetch w" "bearers w2 = bearers w"
    using admission_counts(1,5)[OF adm] selectTokens_counts(2,6)[OF sel] by simp_all
  from attemptLoop_first_success[of k tokensToTry e w2 endpoint d logContext cb 0 None]
    k fails succ fc
  obtain w' where run: "attemptLoop e endpoint logContext cb 0 tokensToTry None w2 =
        (Inr (d, token (tokensToTry ! k)), w')"
    and c: "countEv isFetch w' = countEv isFetch w2 + k + 1"
    and b: "bearers w' = bearers w2 @ map token (take (k + 1) tokensToTry)"
    by auto
  from k have "tokensToTry \<noteq> []" by auto
  with adm sel run have "fetchWithTokenRotation e endpoint logContext specificToken cb w =
      Some (Inr (d, token (tokensToTry ! k)), w')"
    by (simp add: fetchWithTokenRotation_def)
  with c b cnt show ?thesis by simp
qed

theorem first_success_stops_rotation_witness:
  "admission envSecondWins uploadUrl ''VEO UPLOAD'' False (world0 [sharedA])
     = Some (Inr (), world0 [sharedA])
   \<and> selectTokens envSecondWins None (world0 [sharedA])
     = ([\<lparr>token = ''ya29.personal'', createdAt = ''personal''\<rparr>, sharedA], world0 [sharedA])
   \<and> structuralSuccess (snd (fetch envSecondWins 0 uploadUrl ''ya29.personal'')) = None
   \<and> structuralSuccess (snd (fetch envSecondWins 1 uploadUrl ''ya29.shared-A'')) = Some okBody
   \<and> (\<exists>w'. fetchWithTokenRotation envSecondWins uploadUrl ''VEO UPLOAD'' None False (world0 [sharedA])
              = Some (Inr (okBody, ''ya29.shared-A''), w')
         \<and> countEv isFetch w' = 2
         \<and> bearers w' = [''ya29.personal'', ''ya29.shared-A''])"
proof -
  have adm: "admission envSecondWins uploadUrl ''VEO UPLOAD'' False (world0 [sharedA])
     = Some (Inr (), world0 [sharedA])"
    by (simp add: admission_def isGenerationRequest_def startsWith_def)
  have sel: "selectTokens envSecondWins None (world0 [sharedA])
     = ([\<lparr>token = ''ya29.personal'', createdAt = ''personal''\<rparr>, sharedA], world0 [sharedA])"
    by (simp add: selectTokens_def rotationTokens_def shuffleTokens_def getSharedTokens_def
        getPersonalToken_def envSecondWins_def env0_def annUser_def world0_def)
  have f0: "structuralSuccess (snd (fetch envSecondWins 0 uploadUrl ''ya29.personal'')) = None"
    by (simp add: structuralSuccess_def envSecondWins_def env0_def replyUnauthorized_def ok_def)
  have f1: "structuralSuccess (snd (fetch envSecondWins 1 uploadUrl ''ya29.shared-A'')) = Some okBody"
    by (simp add: structuralSuccess_def envSecondWins_def env0_def replyOk_def ok_def)
  show ?thesis
    using adm sel f0 f1
      first_success_stops_rotation[OF adm sel, where k = 1 and d = okBody]
    by (auto simp: world0_def countEv_def bearers_def sharedA_def)
qed

subsection \<open>A failing gate is fatal\<close>

text \<open>
  Claim C4, as amended. For a generation request, if the gate call answers with an error
  (after any number \<open>n\<close> of denied polls), the call fails at once with a plain \<open>Error\<close>
  whose message is \<open>Database error while requesting a generation slot: \<close> followed by
  the message of the gate. It is no error kind of its own: it differs from the error
  raised for a missing credential, and the API error that a credential attempt raises
  (a response that is not ok, lines 185 and 186) is this same error exactly when its
  message is this same text. The failing gate call is the last gate call: it is not
  retried. No transport call is made and no telemetry entry is recorded.
\<close>

theorem gate_error_aborts_dispatch:
  assumes gen: "isGenerationRequest logContext"
    and denials: "\<forall>i<n. gate e (gateCalls w + i) = GateData False"
    and err: "gate e (gateCalls w + n) = GateError m"
  shows "\<exists>w'. fetchWithTokenRotation e endpoint logContext specificToken cb w =
                 Some (Inl (Error (gateErrorMessage m)), w')
           \<and> filter isGate (trace w') =
               filter isGate (trace w)
               @ replicate n (GateCall 10 (slotServerUrl e endpoint) (GateData False))
               @ [GateCall 10 (slotServerUrl e endpoint) (GateError m)]
           \<and> countEv isFetch w' = countEv isFetch w
           \<and> countEv isLog w' = countEv isLog w
           \<and> countEv isRefill w' = countEv isRefill w
           \<and> Error (gateErrorMessage m) \<noteq> noTokenError logContext
           \<and> name (Error (gateErrorMessage m)) = ''Error''
           \<and> (\<forall>response d. body response = Parsed (JObj d) \<longrightarrow> \<not> ok response \<longrightarrow>
                 (interpretReply (Resolved response) = Inl (Error (gateErrorMessage m)))
                 = (apiErrorMessage d (status response) = gateErrorMessage m))"
proof -
  define s where "s = slotServerUrl e endpoint"
  define w1 where "w1 = onStatusUpdate cb
      ''Semua slot sedang digunakan. Anda berada dalam barisan menunggu...'' w"
  define wn where "wn = (denied cb s ^^ n) w1"
  define w' where "w' = onStatusUpdate cb []
      (emit (GateCall 10 s (GateError m)) (wn\<lparr>gateCalls := gateCalls wn + 1\<rparr>))"
  have g1: "gateCalls w1 = gateCalls w" by (simp add: w1_def)
  have "acquireSlot e cb s w1 = acquireSlot e cb s wn"
    unfolding wn_def using denials by (intro acquireSlot_denied_n) (simp add: g1)
  also have "\<dots> = Some (Inl (Error (gateErrorMessage m)), w')"
    unfolding w'_def using err by (intro acquireSlot_error_now) (simp add: wn_def g1)
  finally have acq: "acquireSlot e cb s w1 = Some (Inl (Error (gateErrorMessage m)), w')" .
  have run: "fetchWithTokenRotation e endpoint logContext specificToken cb w =
      Some (Inl (Error (gateErrorMessage m)), w')"
    using gen acq by (simp add: fetchWithTokenRotation_def admission_def Let_def w1_def s_def)
  have tr: "trace w' = trace w
      @ (if cb then [StatusUpdate ''Semua slot sedang digunakan. Anda berada dalam barisan menunggu...''] else [])
      @ concat (replicate n (deniedEvents cb s))
      @ [GateCall 10 s (GateError m)] @ (if cb then [StatusUpdate []] else [])"
    by (simp add: w'_def wn_def w1_def onStatusUpdate_def)
  have other: "Error (gateErrorMessage m) \<noteq> noTokenError logContext"
    "name (Error (gateErrorMessage m)) = ''Error''"
    by (simp_all add: Error_def gateErrorMessage_def noTokenError_def)
  have api: "\<forall>response d. body response = Parsed (JObj d) \<longrightarrow> \<not> ok response \<longrightarrow>
                 (interpretReply (Resolved response) = Inl (Error (gateErrorMessage m)))
                 = (apiErrorMessage d (status response) = gateErrorMessage m)"
    by (simp add: interpretReply_def Error_def)
  from run tr have "fetchWithTokenRotation e endpoint logContext specificToken cb w =
                 Some (Inl (Error (gateErrorMessage m)), w')
           \<and> filter isGate (trace w') =
               filter isGate (trace w)
               @ replicate n (GateCall 10 (slotServerUrl e endpoint) (GateData False))
               @ [GateCall 10 (slotServerUrl e endpoint) (GateError m)]
           \<and> countEv isFetch w' = countEv isFetch w
           \<and> countEv isLog w' = countEv isLog w
           \<and> countEv isRefill w' = countEv isRefill w"
    by (simp add: countEv_def s_def)
  with other api show ?thesis by blast
qed

theorem gate_error_aborts_dispatch_witness:
  "isGenerationRequest ''IMAGEN GENERATE''
   \<and> gate envGateFails 0 = GateData False
   \<and> gate envGateFails 1 = GateError ''connection refused''
   \<and> (\<exists>w'. fetchWithTokenRotation envGateFails imagenGenerateUrl
               ''IMAGEN GENERATE'' None True (world0 [sharedA]) =
             Some (Inl (Error ''Database error while requesting a generation slot: connection refused''), w')
         \<and> filter isGate (trace w') =
             [GateCall 10 ''https://gemx.monoklix.com'' (GateData False),
              GateCall 10 ''https://gemx.monoklix.com'' (GateError ''connection refused'')]
         \<and> countEv isFetch w' = 0 \<and> countEv isLog w' = 0)
   \<and> interpretReply (snd replyGateText)
       = Inl (Error ''Database error while requesting a generation slot: connection refused'')
   \<and> interpretReply (snd replyUnauthorized)
       \<noteq> Inl (Error ''Database error while requesting a generation slot: connection refused'')"
proof -
  have gen: "isGenerationRequest ''IMAGEN GENERATE''"
    by (simp add: isGenerationRequest_def startsWith_def)
  have g0: "\<forall>i<1. gate envGateFails (gateCalls (world0 [sharedA]) + i) = GateData False"
    by (simp add: envGateFails_def env0_def world0_def)
  have g1: "gate envGateFails (gateCalls (world0 [sharedA]) + 1) = GateError ''connection refused''"
    by (simp add: envGateFails_def env0_def world0_def)
  have url: "slotServerUrl envGateFails imagenGenerateUrl = ''https://gemx.monoklix.com''"
    by (simp add: slotServerUrl_def getImagenProxyUrl_def getVeoProxyUrl_def startsWith_def
        envGateFails_def env0_def imagenGenerateUrl_def)
  have msg: "gateErrorMessage ''connection refused''
      = ''Database error while requesting a generation slot: connection refused''"
    by (simp add: gateErrorMessage_def)
  note inst = gate_error_aborts_dispatch[OF gen g0 g1, of imagenGenerateUrl None True]
  have same: "interpretReply (snd replyGateText)
       = Inl (Error ''Database error while requesting a generation slot: connection refused'')"
  proof -
    have "body \<lparr>status = 500, body = Parsed (JObj gateTextBody)\<rparr> = Parsed (JObj gateTextBody)"
      "\<not> ok \<lparr>status = 500, body = Parsed (JObj gateTextBody)\<rparr>"
      "apiErrorMessage gateTextBody (status \<lparr>status = 500, body = Parsed (JObj gateTextBody)\<rparr>)
         = gateErrorMessage ''connection refused''"
      by (simp_all add: ok_def apiErrorMessage_def orElse_def gateTextBody_def gateErrorMessage_def)
    with inst show ?thesis by (auto simp: replyGateText_def msg)
  qed
  have differs: "interpretReply (snd replyUnauthorized)
       \<noteq> Inl (Error ''Database error while requesting a generation slot: connection refused'')"
  proof -
    have "body \<lparr>status = 401, body = Parsed (JObj invalidTokenBody)\<rparr> = Parsed (JObj invalidTokenBody)"
      "\<not> ok \<lparr>status = 401, body = Parsed (JObj invalidTokenBody)\<rparr>"
      "apiErrorMessage invalidTokenBody (status \<lparr>status = 401, body = Parsed (JObj invalidTokenBody)\<rparr>)
         \<noteq> gateErrorMessage ''connection refused''"
      by (simp_all add: ok_def apiErrorMessage_def orElse_def invalidTokenBody_def gateErrorMessage_def)
    with inst show ?thesis by (auto simp: replyUnauthorized_def msg)
  qed
  from inst gen g0 g1 url msg have run: "\<exists>w'. fetchWithTokenRotation envGateFails imagenGenerateUrl
               ''IMAGEN GENERATE'' None True (world0 [sharedA]) =
             Some (Inl (Error ''Database error while requesting a generation slot: connection refused''), w')
         \<and> filter isGate (trace w') =
             [GateCall 10 ''https://gemx.monoklix.com'' (GateData False),
              GateCall 10 ''https://gemx.monoklix.com'' (GateError ''connection refused'')]
         \<and> countEv isFetch w' = 0 \<and> countEv isLog w' = 0"
    by (auto simp: world0_def countEv_def)
  have "gate envGateFails 0 = GateData False" "gate envGateFails 1 = GateError ''connection refused''"
    using g0 g1 by (simp_all add: world0_def)
  with gen run same differs show ?thesis by blast
qed

text \<open>
  Claim C4 as stated (a distinct admission-gate error kind) fails: line 106 throws a plain
  \<open>Error\<close>, as lines 185 and 186 do with the text of the server. When the gate grants
  the slot and the server refuses the only credential with the text of a gate failure,
  the call throws, after one transport call, the very error that a failing gate gives.
\<close>

theorem gate_error_kind_counterexample:
  "map_option fst (fetchWithTokenRotation envGateFails imagenGenerateUrl ''IMAGEN GENERATE'' None False
      (world0 [sharedA]))
     = Some (Inl (Error ''Database error while requesting a generation slot: connection refused''))
   \<and> map_option fst (fetchWithTokenRotation envGateText imagenGenerateUrl ''IMAGEN GENERATE'' None False
      (world0 [sharedA]))
     = Some (Inl (Error ''Database error while requesting a generation slot: connection refused''))
   \<and> gateSleepFetch (traceOf (fetchWithTokenRotation envGateText imagenGenerateUrl ''IMAGEN GENERATE''
      None False (world0 [sharedA])))
     = [GateCall 10 ''https://gemx.monoklix.com'' (GateData True),
        FetchCall imagenGenerateUrl ''ya29.shared-A'' (Some ''unknown'')]"
  by code_simp

subsection \<open>Exhaustion\<close>

lemma exhausted_Some:
  "exhausted ctx (Some err) w = (Inl err, addLogEntry (aggregateEntry ctx err) w)"
  by (simp add: exhausted_def aggregateEntry_def)

lemma attemptLoop_all_fail:
  assumes "rest \<noteq> []"
    and "\<forall>j<length rest. structuralSuccess
            (snd (fetch e (fetchCalls w + j) endpoint (token (rest ! j)))) = None"
    and "interpretReply (snd (fetch e (fetchCalls w + (length rest - 1)) endpoint (token (last rest))))
           = Inl lastE"
  shows "\<exists>w'. attemptLoop e endpoint ctx cb i rest le w = (Inl lastE, w')
           \<and> countEv isLog w' = countEv isLog w + 2 * length rest + 1
           \<and> countEv isFetch w' = countEv isFetch w + length rest
           \<and> bearers w' = bearers w @ map token rest
           \<and> last (trace w') = LogEntry (aggregateEntry ctx lastE)"
  using assms
proof (induction rest arbitrary: i le w)
  case Nil
  then show ?case by simp
next
  case (Cons t ts)
  from Cons.prems(2) have "structuralSuccess (snd (fetch e (fetchCalls w) endpoint (token t))) = None"
    by force
  then obtain err where err: "interpretReply (snd (fetch e (fetchCalls w) endpoint (token t))) = Inl err"
    using interpretReply_Inl by blast
  define w1 where "w1 = advance (attemptEvents e endpoint ctx cb i t @ failureEvents e ctx i t err) w"
  have step: "attemptLoop e endpoint ctx cb i (t # ts) le w =
      attemptLoop e endpoint ctx cb (i + 1) ts (Some err) w1"
    unfolding w1_def by (rule attemptLoop_failure_step[OF err])
  have w1: "countEv isLog w1 = countEv isLog w + 2" "countEv isFetch w1 = countEv isFetch w + 1"
    "bearers w1 = bearers w @ [token t]" "fetchCalls w1 = fetchCalls w + 1"
    by (simp_all add: w1_def countEv_def bearers_def)
  show ?case
  proof (cases "ts = []")
    case True
    with Cons.prems(3) err have "lastE = err" by simp
    with True step w1 show ?thesis
      by (simp add: exhausted_Some countEv_def bearers_def)
  next
    case False
    have fails: "\<forall>j<length ts. structuralSuccess
            (snd (fetch e (fetchCalls w1 + j) endpoint (token (ts ! j)))) = None"
    proof (intro allI impI)
      fix j assume "j < length ts"
      then have "Suc j < length (t # ts)" by simp
      with Cons.prems(2) have "structuralSuccess
          (snd (fetch e (fetchCalls w + Suc j) endpoint (token ((t # ts) ! Suc j)))) = None"
        by blast
      then show "structuralSuccess (snd (fetch e (fetchCalls w1 + j) endpoint (token (ts ! j)))) = None"
        by (simp add: w1)
    qed
    have lst: "interpretReply (snd (fetch e (fetchCalls w1 + (length ts - 1)) endpoint (token (last ts))))
           = Inl lastE"
      using Cons.prems(3) False by (cases ts) (simp_all add: w1)
    from Cons.IH[OF False fails lst, of "i + 1" "Some err"] obtain w' where
      "attemptLoop e endpoint ctx cb (i + 1) ts (Some err) w1 = (Inl lastE, w')"
      "countEv isLog w' = countEv isLog w1 + 2 * length ts + 1"
      "countEv isFetch w' = countEv isFetch w1 + length ts"
      "bearers w' = bearers w1 @ map token ts"
      "last (trace w') = LogEntry (aggregateEntry ctx lastE)"
      by blast
    with step w1 show ?thesis by simp
  qed
qed

lemma attemptLoop_bus_untagged:
  assumes "\<forall>t\<in>set rest. createdAt t \<noteq> ''personal''"
  shows "filter isBus (trace (snd (attemptLoop e endpoint ctx cb i rest le w))) = filter isBus (trace w)"
  using assms
proof (induction rest arbitrary: i le w)
  case Nil
  show ?case by (cases le) (simp_all add: exhausted_def)
next
  case (Cons t ts)
  then have t: "createdAt t \<noteq> ''personal''" and ts: "\<forall>t\<in>set ts. createdAt t \<noteq> ''personal''"
    by simp_all
  show ?case
  proof (cases "interpretReply (snd (fetch e (fetchCalls w) endpoint (token t)))")
    case (Inr d)
    from attemptLoop_success_step[OF Inr] show ?thesis
      by (simp del: attemptLoop.simps add: attemptEvents_def)
  next
    case (Inl err)
    from attemptLoop_failure_step[OF Inl] Cons.IH[OF ts] t show ?thesis
      by (simp del: attemptLoop.simps add: attemptEvents_def failureEvents_def)
  qed
qed

text \<open>
  Claim C2, as amended. Take any call that passes admission and builds a list of
  \<open>N \<ge> 1\<close> candidates whose attempts all fail. The call throws the error of the last
  attempt, and the aggregate telemetry entry, the last event of the call, carries its
  message. The transport was called once per candidate, in order. The telemetry sink
  received \<open>2 * N + 1\<close> entries: one when each attempt starts, one when it fails, and
  the aggregate.
\<close>

theorem exhaustion_throws_last_error:
  assumes adm: "admission e endpoint logContext cb w = Some (Inr (), w1)"
    and sel: "selectTokens e specificToken w1 = (tokensToTry, w2)"
    and nonempty: "tokensToTry \<noteq> []"
    and fails: "\<forall>j<length tokensToTry. structuralSuccess
                  (snd (fetch e (fetchCalls w + j) endpoint (token (tokensToTry ! j)))) = None"
    and lastE: "interpretReply (snd (fetch e (fetchCalls w + (length tokensToTry - 1)) endpoint
                  (token (last tokensToTry)))) = Inl lastE"
  shows "\<exists>w'. fetchWithTokenRotation e endpoint logContext specificToken cb w = Some (Inl lastE, w')
           \<and> countEv isLog w' = countEv isLog w + 2 * length tokensToTry + 1
           \<and> countEv isFetch w' = countEv isFetch w + length tokensToTry
           \<and> bearers w' = bearers w @ map token tokensToTry
           \<and> last (trace w') = LogEntry (aggregateEntry logContext lastE)"
proof -
  have fc: "fetchCalls w2 = fetchCalls w"
    using admission_counts(6)[OF adm] selectTokens_counts(1)[OF sel] by simp
  have cnt: "countEv isFetch w2 = countEv isFetch w" "countEv isLog w2 = countEv isLog w"
    "bearers w2 = bearers w"
    using admission_counts(1,2,5)[OF adm] selectTokens_counts(2,3,6)[OF sel] by simp_all
  from attemptLoop_all_fail[of tokensToTry e w2 endpoint lastE logContext cb 0 None]
    nonempty fails lastE fc
  obtain w' where "attemptLoop e endpoint logContext cb 0 tokensToTry None w2 = (Inl lastE, w')"
    "countEv isLog w' = countEv isLog w2 + 2 * length tokensToTry + 1"
    "countEv isFetch w' = countEv isFetch w2 + length tokensToTry"
    "bearers w' = bearers w2 @ map token tokensToTry"
    "last (trace w') = LogEntry (aggregateEntry logContext lastE)"
    by auto
  with adm sel nonempty cnt show ?thesis
    by (simp add: fetchWithTokenRotation_def)
qed

theorem exhaustion_throws_last_error_witness:
  "admission envAllFail uploadUrl ''VEO UPLOAD'' False (world0 [sharedA]) = Some (Inr (), world0 [sharedA])
   \<and> selectTokens envAllFail None (world0 [sharedA])
       = ([\<lparr>token = ''ya29.personal'', createdAt = ''personal''\<rparr>, sharedA], world0 [sharedA])
   \<and> structuralSuccess (snd (fetch envAllFail 0 uploadUrl ''ya29.personal'')) = None
   \<and> structuralSuccess (snd (fetch envAllFail 1 uploadUrl ''ya29.shared-A'')) = None
   \<and> interpretReply (snd (fetch envAllFail 1 uploadUrl ''ya29.shared-A'')) = Inl (Error ''Invalid token'')
   \<and> (\<exists>w'. fetchWithTokenRotation envAllFail uploadUrl ''VEO UPLOAD'' None False (world0 [sharedA])
               = Some (Inl (Error ''Invalid token''), w')
         \<and> countEv isLog w' = 5 \<and> countEv isFetch w' = 2
         \<and> bearers w' = [''ya29.personal'', ''ya29.shared-A''])"
proof -
  have adm: "admission envAllFail uploadUrl ''VEO UPLOAD'' False (world0 [sharedA]) = Some (Inr (), world0 [sharedA])"
    by (simp add: admission_def isGenerationRequest_def startsWith_def)
  have sel: "selectTokens envAllFail None (world0 [sharedA])
       = ([\<lparr>token = ''ya29.personal'', createdAt = ''personal''\<rparr>, sharedA], world0 [sharedA])"
    by (simp add: selectTokens_def rotationTokens_def shuffleTokens_def getSharedTokens_def
        getPersonalToken_def envAllFail_def env0_def annUser_def world0_def)
  have f0: "structuralSuccess (snd (fetch envAllFail 0 uploadUrl ''ya29.personal'')) = None"
    by (simp add: structuralSuccess_def envAllFail_def env0_def replyUnauthorized_def ok_def)
  have f1: "structuralSuccess (snd (fetch envAllFail 1 uploadUrl ''ya29.shared-A'')) = None"
    by (simp add: structuralSuccess_def envAllFail_def env0_def replyUnauthorized_def ok_def)
  have l1: "interpretReply (snd (fetch envAllFail 1 uploadUrl ''ya29.shared-A'')) = Inl (Error ''Invalid token'')"
    by (simp add: interpretReply_def envAllFail_def env0_def replyUnauthorized_def ok_def
        apiErrorMessage_def orElse_def invalidTokenBody_def)
  have fails: "\<forall>j<length [\<lparr>token = ''ya29.personal'', createdAt = ''personal''\<rparr>, sharedA].
      structuralSuccess (snd (fetch envAllFail (fetchCalls (world0 [sharedA]) + j) uploadUrl
        (token ([\<lparr>token = ''ya29.personal'', createdAt = ''personal''\<rparr>, sharedA] ! j)))) = None"
    using f0 f1 by (simp add: world0_def sharedA_def less_Suc_eq)
  have lst: "interpretReply (snd (fetch envAllFail
        (fetchCalls (world0 [sharedA]) + (length [\<lparr>token = ''ya29.personal'', createdAt = ''personal''\<rparr>, sharedA] - 1))
        uploadUrl (token (last [\<lparr>token = ''ya29.personal'', createdAt = ''personal''\<rparr>, sharedA]))))
      = Inl (Error ''Invalid token'')"
    using l1 by (simp add: world0_def sharedA_def)
  show ?thesis
    using adm sel f0 f1 l1 exhaustion_throws_last_error[OF adm sel _ fails lst]
    by (auto simp: world0_def countEv_def bearers_def sharedA_def)
qed

text \<open>
  Claim C2 as stated (\<open>N + 1\<close> telemetry entries) fails: a call with one explicit
  credential that is refused makes one attempt and records three entries, not two.
\<close>

theorem telemetry_count_counterexample:
  "map_option fst (fetchWithTokenRotation env0 statusUrl ''VEO STATUS'' (Some ''ya29.explicit'') False (world0 []))
     = Some (Inl (Error ''Invalid token''))
   \<and> length (filter isFetch (traceOf
        (fetchWithTokenRotation env0 statusUrl ''VEO STATUS'' (Some ''ya29.explicit'') False (world0 [])))) = 1
   \<and> length (filter isLog (traceOf
        (fetchWithTokenRotation env0 statusUrl ''VEO STATUS'' (Some ''ya29.explicit'') False (world0 [])))) = 3
   \<and> length (filter isLog (traceOf
        (fetchWithTokenRotation env0 statusUrl ''VEO STATUS'' (Some ''ya29.explicit'') False (world0 [])))) \<noteq> 1 + 1"
  by code_simp

subsection \<open>Notification of a failed personal credential\<close>

lemma getPersonalToken_tagged: "getPersonalToken e = Some p \<Longrightarrow> createdAt p = ''personal''"
  by (auto simp: getPersonalToken_def split: option.splits if_splits)

text \<open>
  Claim C9, as amended. In a call without explicit credential that passes admission,
  if the personal credential is configured, its attempt fails, and no shared credential
  of the pool (stored or refilled) has the string \<open>personal\<close> as \<open>createdAt\<close>, then
  exactly one event \<open>personalTokenFailed\<close> is published, whatever happens to the shared
  candidates tried afterwards.
\<close>

theorem personal_failure_notifies_once:
  assumes adm: "admission e endpoint logContext cb w = Some (Inr (), w1)"
    and rot: "specificToken = None \<or> specificToken = Some []"
    and pers: "getPersonalToken e = Some p"
    and untagged: "\<forall>t\<in>set (sharedPool e w). createdAt t \<noteq> ''personal''"
    and fails: "structuralSuccess (snd (fetch e (fetchCalls w) endpoint (token p))) = None"
  shows "\<exists>r w'. fetchWithTokenRotation e endpoint logContext specificToken cb w = Some (r, w')
           \<and> filter isBus (trace w') = filter isBus (trace w) @ [BusDispatch ''personalTokenFailed'']"
proof -
  from rotationTokens_spec[of e w1] obtain shared' w2 where
    r: "rotationTokens e w1 = (personalList e @ shared', w2)"
    and m: "mset shared' = mset (sharedPool e w1)"
    by blast
  have sel: "selectTokens e specificToken w1 = (p # shared', w2)"
    using r rot pers by (simp add: selectTokens_rotation personalList_def)
  have "sharedPool e w1 = sharedPool e w"
    using admission_counts(8)[OF adm] by (simp add: sharedPool_def)
  with m have "set shared' = set (sharedPool e w)" by (metis mset_eq_setD)
  with untagged have un: "\<forall>t\<in>set shared'. createdAt t \<noteq> ''personal''" by simp
  have fc: "fetchCalls w2 = fetchCalls w"
    using admission_counts(6)[OF adm] selectTokens_counts(1)[OF sel] by simp
  have bus2: "filter isBus (trace w2) = filter isBus (trace w)"
    using admission_counts(9)[OF adm] selectTokens_counts(7)[OF sel] by simp
  from fails fc obtain err where
    err: "interpretReply (snd (fetch e (fetchCalls w2) endpoint (token p))) = Inl err"
    using interpretReply_Inl by force
  define w3 where "w3 = advance (attemptEvents e endpoint logContext cb 0 p
                                  @ failureEvents e logContext 0 p err) w2"
  have step: "attemptLoop e endpoint logContext cb 0 (p # shared') None w2 =
      attemptLoop e endpoint logContext cb (0 + 1) shared' (Some err) w3"
    unfolding w3_def by (rule attemptLoop_failure_step[OF err])
  have bus3: "filter isBus (trace w3) = filter isBus (trace w) @ [BusDispatch ''personalTokenFailed'']"
    using bus2 getPersonalToken_tagged[OF pers]
    by (simp add: w3_def attemptEvents_def failureEvents_def)
  obtain r' w' where run: "attemptLoop e endpoint logContext cb (0 + 1) shared' (Some err) w3 = (r', w')"
    by (cases "attemptLoop e endpoint logContext cb (0 + 1) shared' (Some err) w3")
  from attemptLoop_bus_untagged[OF un, of e endpoint logContext cb "0 + 1" "Some err" w3] run
  have "filter isBus (trace w') = filter isBus (trace w3)" by simp
  with bus3 have "filter isBus (trace w') = filter isBus (trace w) @ [BusDispatch ''personalTokenFailed'']"
    by simp
  moreover have "fetchWithTokenRotation e endpoint logContext specificToken cb w = Some (r', w')"
    using adm sel step run by (simp add: fetchWithTokenRotation_def del: attemptLoop.simps)
  ultimately show ?thesis by blast
qed

theorem personal_failure_notifies_once_witness:
  "admission envAllFail uploadUrl ''VEO UPLOAD'' False (world0 [sharedA]) = Some (Inr (), world0 [sharedA])
   \<and> getPersonalToken envAllFail = Some \<lparr>token = ''ya29.personal'', createdAt = ''personal''\<rparr>
   \<and> createdAt sharedA \<noteq> ''personal''
   \<and> structuralSuccess (snd (fetch envAllFail 0 uploadUrl ''ya29.personal'')) = None
   \<and> (\<exists>r w'. fetchWithTokenRotation envAllFail uploadUrl ''VEO UPLOAD'' None False (world0 [sharedA]) = Some (r, w')
         \<and> filter isBus (trace w') = [BusDispatch ''personalTokenFailed''])"
proof -
  have adm: "admission envAllFail uploadUrl ''VEO UPLOAD'' False (world0 [sharedA]) = Some (Inr (), world0 [sharedA])"
    by (simp add: admission_def isGenerationRequest_def startsWith_def)
  have rot: "(None :: string option) = None \<or> (None :: string option) = Some []" by simp
  have pers: "getPersonalToken envAllFail = Some \<lparr>token = ''ya29.personal'', createdAt = ''personal''\<rparr>"
    by (simp add: getPersonalToken_def envAllFail_def env0_def annUser_def)
  have tag: "createdAt sharedA \<noteq> ''personal''" by (simp add: sharedA_def)
  have un: "\<forall>t\<in>set (sharedPool envAllFail (world0 [sharedA])). createdAt t \<noteq> ''personal''"
    using tag by (simp add: sharedPool_def world0_def)
  have f0: "structuralSuccess (snd (fetch envAllFail (fetchCalls (world0 [sharedA])) uploadUrl
      (token \<lparr>token = ''ya29.personal'', createdAt = ''personal''\<rparr>))) = None"
    by (simp add: structuralSuccess_def envAllFail_def env0_def replyUnauthorized_def ok_def)
  show ?thesis
    using adm pers tag f0 personal_failure_notifies_once[OF adm rot pers un f0]
    by (auto simp: world0_def)
qed

text \<open>
  Claim C9 as stated fails: the loop takes a candidate for the personal one when its
  \<open>createdAt\<close> is \<open>personal\<close>. With such a shared credential in the pool and every
  attempt refused, two events are published in one call.
\<close>

theorem tagged_shared_credential_counterexample:
  "getPersonalToken envAllFail = Some \<lparr>token = ''ya29.personal'', createdAt = ''personal''\<rparr>
   \<and> structuralSuccess (snd (fetch envAllFail 0 uploadUrl ''ya29.personal'')) = None
   \<and> filter isBus (traceOf
        (fetchWithTokenRotation envAllFail uploadUrl ''VEO UPLOAD'' None False (world0 [sharedTagged])))
       = [BusDispatch ''personalTokenFailed'', BusDispatch ''personalTokenFailed'']
   \<and> length (filter isBus (traceOf
        (fetchWithTokenRotation envAllFail uploadUrl ''VEO UPLOAD'' None False (world0 [sharedTagged])))) \<noteq> 1"
  by code_simp

subsection \<open>The candidate list\<close>

text \<open>
  Claim C5. In a call that passes admission and whose candidate list is empty, the call
  fails with the error \<open>Auth Token is required for ... Please set one in Settings.\<close>
  and no transport call is made. The list is empty only when there is no explicit
  credential, no personal credential, and the shared pool is empty before the refill
  and after it: the refill put nothing there.
\<close>

theorem no_credentials_no_network:
  assumes adm: "admission e endpoint logContext cb w = Some (Inr (), w1)"
    and sel: "selectTokens e specificToken w1 = ([], w2)"
  shows "fetchWithTokenRotation e endpoint logContext specificToken cb w
           = Some (Inl (noTokenError logContext), w2)
         \<and> countEv isFetch w2 = countEv isFetch w
         \<and> fetchCalls w2 = fetchCalls w
         \<and> (specificToken = None \<or> specificToken = Some [])
         \<and> getPersonalToken e = None
         \<and> veoAuthTokens w = [] \<and> refilled e = []
         \<and> veoAuthTokens w2 = []"
proof -
  have run: "fetchWithTokenRotation e endpoint logContext specificToken cb w
           = Some (Inl (noTokenError logContext), w2)"
    using adm sel by (simp add: fetchWithTokenRotation_def)
  have cnt: "countEv isFetch w2 = countEv isFetch w" "fetchCalls w2 = fetchCalls w"
    using admission_counts(1,6)[OF adm] selectTokens_counts(1,2)[OF sel] by simp_all
  have rot: "specificToken = None \<or> specificToken = Some []"
  proof (rule ccontr)
    assume "\<not> ?thesis"
    then obtain t where "specificToken = Some t" "t \<noteq> []" by (cases specificToken) auto
    with sel show False by (simp add: selectTokens_explicit)
  qed
  from rotationTokens_spec[of e w1] obtain shared' w' where
    r: "rotationTokens e w1 = (personalList e @ shared', w')"
    and m: "mset shared' = mset (sharedPool e w1)"
    and after: "veoAuthTokens w' = sharedPool e w1"
    by blast
  from r sel rot have "personalList e @ shared' = []" and w2: "w' = w2"
    by (simp_all add: selectTokens_rotation)
  then have p: "personalList e = []" and s: "shared' = []" by simp_all
  from p have np: "getPersonalToken e = None"
    by (cases "getPersonalToken e") (simp_all add: personalList_def)
  from s m have pool: "sharedPool e w1 = []" by simp
  then have "veoAuthTokens w1 = [] \<and> refilled e = []"
    by (simp add: sharedPool_def split: if_splits)
  with admission_counts(8)[OF adm] have "veoAuthTokens w = [] \<and> refilled e = []" by simp
  moreover have "veoAuthTokens w2 = []" using after pool w2 by simp
  ultimately show ?thesis using run cnt rot np by simp
qed

theorem no_credentials_no_network_witness:
  "admission env0 uploadUrl ''VEO UPLOAD'' False (world0 []) = Some (Inr (), world0 [])
   \<and> selectTokens env0 None (world0 []) = ([], emit RefillCall (world0 []))
   \<and> fetchWithTokenRotation env0 uploadUrl ''VEO UPLOAD'' None False (world0 [])
       = Some (Inl (Error ''Auth Token is required for VEO UPLOAD. Please set one in Settings.''),
               emit RefillCall (world0 []))
   \<and> countEv isFetch (emit RefillCall (world0 [])) = 0"
proof -
  have adm: "admission env0 uploadUrl ''VEO UPLOAD'' False (world0 []) = Some (Inr (), world0 [])"
    by (simp add: admission_def isGenerationRequest_def startsWith_def)
  have sel: "selectTokens env0 None (world0 []) = ([], emit RefillCall (world0 []))"
    by (simp add: selectTokens_def rotationTokens_def shuffleTokens_def getSharedTokens_def
        getPersonalToken_def refillTokens_def env0_def world0_def emit_def)
  show ?thesis
    using adm sel no_credentials_no_network[OF adm sel]
    by (simp add: noTokenError_def countEv_def world0_def)
qed




text \<open>
  Claim C7, as amended. The code removes no duplicate: the candidate list has pairwise
  distinct credential values whenever the personal credential and the shared pool have.
\<close>

theorem distinct_pool_gives_distinct_candidates:
  assumes "distinct (map token (personalList e @ sharedPool e w))"
  shows "distinct (map token (fst (selectTokens e specificToken w)))"
proof (cases "specificToken = None \<or> specificToken = Some []")
  case True
  from rotationTokens_spec[of e w] obtain shared' w' where
    r: "rotationTokens e w = (personalList e @ shared', w')"
    and m: "mset shared' = mset (sharedPool e w)"
    by blast
  have "mset (map token (personalList e @ shared')) = mset (map token (personalList e @ sharedPool e w))"
    using m by simp
  then have "distinct (map token (personalList e @ shared'))"
    using assms by (metis mset_eq_imp_distinct_iff)
  with r True show ?thesis by (simp add: selectTokens_rotation)
next
  case False
  then obtain t where "specificToken = Some t" "t \<noteq> []" by (cases specificToken) auto
  then show ?thesis by (simp add: selectTokens_explicit)
qed

theorem distinct_pool_gives_distinct_candidates_witness:
  "distinct (map token (personalList envAllFail @ sharedPool envAllFail (world0 [sharedA, sharedB])))
   \<and> distinct (map token (fst (selectTokens envAllFail None (world0 [sharedA, sharedB]))))"
proof -
  have d: "distinct (map token (personalList envAllFail @ sharedPool envAllFail (world0 [sharedA, sharedB])))"
    by (simp add: personalList_def getPersonalToken_def sharedPool_def envAllFail_def env0_def
        annUser_def world0_def sharedA_def sharedB_def)
  show ?thesis
    using d distinct_pool_gives_distinct_candidates[OF d, of None] by simp
qed

text \<open>
  Claim C7 as stated fails: a shared credential with the value of the personal
  credential gives a candidate list with that value twice.
\<close>

theorem duplicate_credential_counterexample:
  "map token (fst (selectTokens envAllFail None (world0 [sharedDup]))) = [''ya29.personal'', ''ya29.personal'']
   \<and> \<not> distinct (map token (fst (selectTokens envAllFail None (world0 [sharedDup]))))"
  by code_simp

text \<open>
  Claim C10. With an explicit credential, the candidate list is that credential alone,
  the state is unchanged by the selection (no random value drawn, no refill), and when
  its attempt fails the call fails after that one transport call and publishes no
  event, whatever the personal credential is.
\<close>

theorem explicit_credential_is_sole_candidate:
  assumes t: "t \<noteq> []"
    and adm: "admission e endpoint logContext cb w = Some (Inr (), w1)"
    and fails: "structuralSuccess (snd (fetch e (fetchCalls w) endpoint t)) = None"
  shows "selectTokens e (Some t) w1 = ([\<lparr>token = t, createdAt = ''N/A''\<rparr>], w1)
         \<and> (\<exists>err w'. fetchWithTokenRotation e endpoint logContext (Some t) cb w = Some (Inl err, w')
               \<and> bearers w' = bearers w @ [t]
               \<and> filter isBus (trace w') = filter isBus (trace w)
               \<and> countEv isRefill w' = countEv isRefill w
               \<and> randCalls w' = randCalls w)"
proof -
  define c where "c = \<lparr>token = t, createdAt = ''N/A''\<rparr>"
  have sel: "selectTokens e (Some t) w1 = ([c], w1)"
    using t by (simp add: selectTokens_explicit c_def)
  have fc: "fetchCalls w1 = fetchCalls w" by (rule admission_counts(6)[OF adm])
  from fails fc obtain err where
    err: "interpretReply (snd (fetch e (fetchCalls w1) endpoint (token c))) = Inl err"
    using interpretReply_Inl by (force simp: c_def)
  define w2 where "w2 = advance (attemptEvents e endpoint logContext cb 0 c
                                  @ failureEvents e logContext 0 c err) w1"
  define w' where "w' = addLogEntry (aggregateEntry logContext err) w2"
  have "attemptLoop e endpoint logContext cb 0 [c] None w1 =
      attemptLoop e endpoint logContext cb (0 + 1) [] (Some err) w2"
    unfolding w2_def by (rule attemptLoop_failure_step[OF err])
  then have loop: "attemptLoop e endpoint logContext cb 0 [c] None w1 = (Inl err, w')"
    by (simp add: exhausted_Some w'_def del: attemptLoop.simps(2))
  have run: "fetchWithTokenRotation e endpoint logContext (Some t) cb w = Some (Inl err, w')"
    using adm sel loop by (simp add: fetchWithTokenRotation_def del: attemptLoop.simps)
  have tr: "trace w' = trace w1 @ attemptEvents e endpoint logContext cb 0 c
      @ failureEvents e logContext 0 c err @ [LogEntry (aggregateEntry logContext err)]"
    by (simp add: w'_def w2_def)
  have untagged: "createdAt c \<noteq> ''personal''" by (simp add: c_def)
  have "bearers w' = bearers w @ [t]"
    using tr admission_counts(5)[OF adm] by (simp add: bearers_def c_def)
  moreover have "filter isBus (trace w') = filter isBus (trace w)"
    using tr admission_counts(9)[OF adm] untagged
    by (simp add: attemptEvents_def failureEvents_def)
  moreover have "countEv isRefill w' = countEv isRefill w"
    using tr admission_counts(4)[OF adm] by (simp add: countEv_def)
  moreover have "randCalls w' = randCalls w"
    using admission_counts(7)[OF adm] by (simp add: w'_def w2_def)
  ultimately show ?thesis using sel run by (auto simp: c_def)
qed

theorem explicit_credential_is_sole_candidate_witness:
  "''ya29.personal'' \<noteq> []
   \<and> getPersonalToken envAllFail = Some \<lparr>token = ''ya29.personal'', createdAt = ''personal''\<rparr>
   \<and> admission envAllFail statusUrl ''VEO STATUS'' False (world0 [sharedA]) = Some (Inr (), world0 [sharedA])
   \<and> structuralSuccess (snd (fetch envAllFail 0 statusUrl ''ya29.personal'')) = None
   \<and> selectTokens envAllFail (Some ''ya29.personal'') (world0 [sharedA])
       = ([\<lparr>token = ''ya29.personal'', createdAt = ''N/A''\<rparr>], world0 [sharedA])
   \<and> (\<exists>err w'. fetchWithTokenRotation envAllFail statusUrl ''VEO STATUS'' (Some ''ya29.personal'') False
                  (world0 [sharedA]) = Some (Inl err, w')
         \<and> bearers w' = [''ya29.personal'']
         \<and> filter isBus (trace w') = []
         \<and> countEv isRefill w' = 0 \<and> randCalls w' = 0)"
proof -
  have t: "''ya29.personal'' \<noteq> []" by simp
  have pers: "getPersonalToken envAllFail = Some \<lparr>token = ''ya29.personal'', createdAt = ''personal''\<rparr>"
    by (simp add: getPersonalToken_def envAllFail_def env0_def annUser_def)
  have adm: "admission envAllFail statusUrl ''VEO STATUS'' False (world0 [sharedA]) = Some (Inr (), world0 [sharedA])"
    by (simp add: admission_def isGenerationRequest_def startsWith_def)
  have f0: "structuralSuccess (snd (fetch envAllFail (fetchCalls (world0 [sharedA])) statusUrl ''ya29.personal'')) = None"
    by (simp add: structuralSuccess_def envAllFail_def env0_def replyUnauthorized_def ok_def)
  have f0': "structuralSuccess (snd (fetch envAllFail 0 statusUrl ''ya29.personal'')) = None"
    using f0 by (simp add: world0_def)
  show ?thesis
    using t pers adm f0' explicit_credential_is_sole_candidate[OF t adm f0]
    by (auto simp: world0_def countEv_def bearers_def)
qed

subsection \<open>The direct path\<close>

lemma drawSeed_fields [simp]:
  "trace (drawSeed request w) = trace w"
  "fetchCalls (drawSeed request w) = fetchCalls w"
  "gateCalls (drawSeed request w) = gateCalls w"
  "veoAuthTokens (drawSeed request w) = veoAuthTokens w"
  by (simp_all add: drawSeed_def split: option.splits)

lemma fetchWithSignal_cases:
  assumes "fetch e (fetchCalls w) url bearer = (lat, r)"
  shows "fetchWithSignal e url bearer deadline w =
     (if deadline < lat
      then (Rejected \<lparr>name = ''AbortError'', message = ''The operation was aborted.''\<rparr>,
            emit AbortSignal (emit (FetchCall url bearer None) (w\<lparr>fetchCalls := fetchCalls w + 1\<rparr>)))
      else (r, emit (FetchCall url bearer None) (w\<lparr>fetchCalls := fetchCalls w + 1\<rparr>)))"
  using assms by (simp add: fetchWithSignal_def Let_def)

lemma directCatch_cases:
  "directCatch \<lparr>name = ''AbortError'', message = msg\<rparr> = timedOutError"
  "directCatch (Error msg) = Error msg"
  "directCatch (TypeError msg) = TypeError msg"
  "name err \<noteq> ''AbortError'' \<Longrightarrow> directCatch err = err"
  by (simp_all add: directCatch_def Error_def TypeError_def)

lemma veo_direct_call:
  assumes tok: "authToken request \<noteq> []"
    and reply: "fetch e (fetchCalls w) (veoUrl e request) (authToken request) = (lat, r)"
  shows "\<exists>res w'. generateVideoWithVeo3 e request w = Some (res, w')
     \<and> trace w' = trace w @ [SetTimeout 15000, FetchCall (veoUrl e request) (authToken request) None]
                     @ (if 15000 < lat then [AbortSignal] else []) @ [ClearTimeout]
     \<and> (15000 < lat \<longrightarrow> res = Inl timedOutError)
     \<and> (\<forall>response d. lat \<le> 15000 \<longrightarrow> r = Resolved response \<longrightarrow> \<not> ok response
           \<longrightarrow> body response = Parsed (JObj d)
           \<longrightarrow> res = Inl (Error (apiErrorMessage d (status response))))
     \<and> (\<forall>err. lat \<le> 15000 \<longrightarrow> r = Rejected err \<longrightarrow> name err \<noteq> ''AbortError'' \<longrightarrow> res = Inl err)"
proof -
  define w1 where "w1 = emit (SetTimeout 15000) (drawSeed request w)"
  have reply1: "fetch e (fetchCalls w1) (veoUrl e request) (authToken request) = (lat, r)"
    using reply by (simp add: w1_def)
  note sig = fetchWithSignal_cases[OF reply1, of 15000]
  show ?thesis
  proof (cases "15000 < lat")
    case True
    with tok sig show ?thesis
      by (simp add: generateVideoWithVeo3_def veoUrl_def Let_def w1_def interpretReply_def
          directCatch_cases)
  next
    case False
    define res where "res = (case interpretReply r of
        Inl err \<Rightarrow> Inl (directCatch err)
      | Inr data \<Rightarrow> (case operationsOf data of
                       Inl err \<Rightarrow> Inl (directCatch err)
                     | Inr ops \<Rightarrow> Inr (ops, authToken request)))"
    define w' where "w' = emit ClearTimeout (emit (FetchCall (veoUrl e request) (authToken request) None)
        (w1\<lparr>fetchCalls := fetchCalls w1 + 1\<rparr>))"
    have run: "generateVideoWithVeo3 e request w = Some (res, w')"
      using tok sig False
      by (simp add: generateVideoWithVeo3_def veoUrl_def Let_def w1_def res_def w'_def
          split: sum.splits)
    have tr: "trace w' = trace w @ [SetTimeout 15000, FetchCall (veoUrl e request) (authToken request) None]
                     @ (if 15000 < lat then [AbortSignal] else []) @ [ClearTimeout]"
      using False by (simp add: w'_def w1_def)
    have api: "res = Inl (Error (apiErrorMessage d (status response)))"
      if "r = Resolved response" "\<not> ok response" "body response = Parsed (JObj d)" for response d
      using that by (simp add: res_def interpretReply_def directCatch_cases)
    have rej: "res = Inl err" if "r = Rejected err" "name err \<noteq> ''AbortError''" for err
      using that by (simp add: res_def interpretReply_def directCatch_cases)
    from run tr False api rej show ?thesis by auto
  qed
qed

lemma imagen_direct_call:
  assumes tok: "authToken request \<noteq> []"
    and reply: "fetch e (fetchCalls w) (imagenUrl e) (authToken request) = (lat, r)"
  shows "\<exists>res w'. generateImageWithImagen e request w = Some (res, w')
     \<and> trace w' = trace w @ [SetTimeout 15000, FetchCall (imagenUrl e) (authToken request) None]
                     @ (if 15000 < lat then [AbortSignal] else []) @ [ClearTimeout]
     \<and> (15000 < lat \<longrightarrow> res = Inl timedOutError)
     \<and> (\<forall>response d. lat \<le> 15000 \<longrightarrow> r = Resolved response \<longrightarrow> \<not> ok response
           \<longrightarrow> body response = Parsed (JObj d)
           \<longrightarrow> res = Inl (Error (apiErrorMessage d (status response))))
     \<and> (\<forall>err. lat \<le> 15000 \<longrightarrow> r = Rejected err \<longrightarrow> name err \<noteq> ''AbortError'' \<longrightarrow> res = Inl err)"
proof -
  define w1 where "w1 = emit (SetTimeout 15000) (drawSeed request w)"
  have reply1: "fetch e (fetchCalls w1) (imagenUrl e) (authToken request) = (lat, r)"
    using reply by (simp add: w1_def)
  note sig = fetchWithSignal_cases[OF reply1, of 15000]
  show ?thesis
  proof (cases "15000 < lat")
    case True
    with tok sig show ?thesis
      by (simp add: generateImageWithImagen_def imagenUrl_def Let_def w1_def interpretReply_def
          directCatch_cases)
  next
    case False
    define res where "res = (case interpretReply r of
        Inl err \<Rightarrow> Inl (directCatch err)
      | Inr data \<Rightarrow> Inr data)"
    define w' where "w' = emit ClearTimeout (emit (FetchCall (imagenUrl e) (authToken request) None)
        (w1\<lparr>fetchCalls := fetchCalls w1 + 1\<rparr>))"
    have run: "generateImageWithImagen e request w = Some (res, w')"
      using tok sig False
      by (simp add: generateImageWithImagen_def imagenUrl_def Let_def w1_def res_def w'_def
          split: sum.splits)
    have tr: "trace w' = trace w @ [SetTimeout 15000, FetchCall (imagenUrl e) (authToken request) None]
                     @ (if 15000 < lat then [AbortSignal] else []) @ [ClearTimeout]"
      using False by (simp add: w'_def w1_def)
    have api: "res = Inl (Error (apiErrorMessage d (status response)))"
      if "r = Resolved response" "\<not> ok response" "body response = Parsed (JObj d)" for response d
      using that by (simp add: res_def interpretReply_def directCatch_cases)
    have rej: "res = Inl err" if "r = Rejected err" "name err \<noteq> ''AbortError''" for err
      using that by (simp add: res_def interpretReply_def directCatch_cases)
    from run tr False api rej show ?thesis by auto
  qed
qed

text \<open>
  Claim C8, as amended. Take a call on the direct path of the video service or of the
  image service (a request with \<open>config.authToken\<close>), and the answer the transport
  gives to its one call. Whatever the answer, the call sets the timer, makes one
  transport call with the credential given, aborts it when the timer fires first, clears
  the timer, and does nothing else: no second attempt, no other credential, no gate
  call, no telemetry entry. When the transport has not settled within 15000 ms the call
  fails with the error \<open>Request timed out after 15 seconds.\<close>, a plain \<open>Error\<close>. When
  it has, a response that is not ok fails with a plain \<open>Error\<close> too, whose message is
  the text of the server (or \<open>API call failed\<close> with the status), so that it is the
  time-out error exactly when that message is the time-out text; and a rejection of the
  transport is thrown again as it is.
\<close>

theorem direct_path_times_out:
  assumes tok: "authToken request \<noteq> []"
    and video: "fetch e (fetchCalls w) (veoUrl e request) (authToken request) = (latV, rV)"
    and image: "fetch e (fetchCalls w) (imagenUrl e) (authToken request) = (latI, rI)"
  shows "(\<exists>res w'. generateVideoWithVeo3 e request w = Some (res, w')
            \<and> trace w' = trace w @ [SetTimeout 15000, FetchCall (veoUrl e request) (authToken request) None]
                            @ (if 15000 < latV then [AbortSignal] else []) @ [ClearTimeout]
            \<and> (15000 < latV \<longrightarrow> res = Inl timedOutError)
            \<and> (\<forall>response d. latV \<le> 15000 \<longrightarrow> rV = Resolved response \<longrightarrow> \<not> ok response
                  \<longrightarrow> body response = Parsed (JObj d)
                  \<longrightarrow> res = Inl (Error (apiErrorMessage d (status response))))
            \<and> (\<forall>err. latV \<le> 15000 \<longrightarrow> rV = Rejected err \<longrightarrow> name err \<noteq> ''AbortError''
                  \<longrightarrow> res = Inl err))
         \<and> (\<exists>res w'. generateImageWithImagen e request w = Some (res, w')
            \<and> trace w' = trace w @ [SetTimeout 15000, FetchCall (imagenUrl e) (authToken request) None]
                            @ (if 15000 < latI then [AbortSignal] else []) @ [ClearTimeout]
            \<and> (15000 < latI \<longrightarrow> res = Inl timedOutError)
            \<and> (\<forall>response d. latI \<le> 15000 \<longrightarrow> rI = Resolved response \<longrightarrow> \<not> ok response
                  \<longrightarrow> body response = Parsed (JObj d)
                  \<longrightarrow> res = Inl (Error (apiErrorMessage d (status response))))
            \<and> (\<forall>err. latI \<le> 15000 \<longrightarrow> rI = Rejected err \<longrightarrow> name err \<noteq> ''AbortError''
                  \<longrightarrow> res = Inl err))
         \<and> name timedOutError = ''Error''
         \<and> message timedOutError = ''Request timed out after 15 seconds.''
         \<and> (\<forall>m. (Error m = timedOutError) = (m = ''Request timed out after 15 seconds.''))"
proof -
  have "name timedOutError = ''Error''" "message timedOutError = ''Request timed out after 15 seconds.''"
    "\<forall>m. (Error m = timedOutError) = (m = ''Request timed out after 15 seconds.'')"
    by (simp_all add: timedOutError_def Error_def)
  with veo_direct_call[OF tok video] imagen_direct_call[OF tok image] show ?thesis by blast
qed

theorem direct_path_times_out_witness:
  "authToken directRequest \<noteq> []
   \<and> fetch envLate 0 veoT2vUrl ''ya29.explicit'' = (20000, snd replyOk)
   \<and> (\<exists>w'. generateVideoWithVeo3 envLate directRequest (world0 []) = Some (Inl timedOutError, w')
         \<and> trace w' = [SetTimeout 15000, FetchCall veoT2vUrl ''ya29.explicit'' None, AbortSignal, ClearTimeout])
   \<and> (\<exists>w'. generateImageWithImagen envLate directRequest (world0 []) = Some (Inl timedOutError, w')
         \<and> trace w' = [SetTimeout 15000, FetchCall imagenGenerateUrl ''ya29.explicit'' None, AbortSignal,
                        ClearTimeout])
   \<and> fetch env0 0 veoT2vUrl ''ya29.explicit'' = replyUnauthorized
   \<and> (\<exists>w'. generateVideoWithVeo3 env0 directRequest (world0 []) = Some (Inl (Error ''Invalid token''), w')
         \<and> trace w' = [SetTimeout 15000, FetchCall veoT2vUrl ''ya29.explicit'' None, ClearTimeout])
   \<and> fetch envOffline 0 veoT2vUrl ''ya29.explicit'' = replyOffline
   \<and> (\<exists>w'. generateVideoWithVeo3 envOffline directRequest (world0 [])
              = Some (Inl (TypeError ''Failed to fetch''), w')
         \<and> trace w' = [SetTimeout 15000, FetchCall veoT2vUrl ''ya29.explicit'' None, ClearTimeout])
   \<and> (\<exists>w'. generateImageWithImagen envOffline directRequest (world0 [])
              = Some (Inl (TypeError ''Failed to fetch''), w')
         \<and> trace w' = [SetTimeout 15000, FetchCall imagenGenerateUrl ''ya29.explicit'' None, ClearTimeout])"
proof -
  have tok: "authToken directRequest \<noteq> []" and tokv: "authToken directRequest = ''ya29.explicit''"
    by (simp_all add: directRequest_def)
  have w0: "fetchCalls (world0 []) = 0" "trace (world0 []) = []" by (simp_all add: world0_def)
  have urls: "veoUrl e directRequest = veoT2vUrl" "imagenUrl e = imagenGenerateUrl"
    if "selectedProxyServerAtLoad e = []" "production e" for e
    using that
    by (simp_all add: veoUrl_def veoBaseUrl_def imagenUrl_def imagenBaseUrl_def atLoad_def
        getVeoProxyUrl_def getImagenProxyUrl_def directRequest_def veoT2vUrl_def imagenGenerateUrl_def)
  have ul: "veoUrl envLate directRequest = veoT2vUrl" "imagenUrl envLate = imagenGenerateUrl"
    by (rule urls; simp add: envLate_def env0_def)+
  have u0: "veoUrl env0 directRequest = veoT2vUrl" "imagenUrl env0 = imagenGenerateUrl"
    by (rule urls; simp add: env0_def)+
  have uo: "veoUrl envOffline directRequest = veoT2vUrl" "imagenUrl envOffline = imagenGenerateUrl"
    by (rule urls; simp add: envOffline_def env0_def)+
  have lv: "fetch envLate (fetchCalls (world0 [])) (veoUrl envLate directRequest) (authToken directRequest)
      = (20000, snd replyOk)"
    and li: "fetch envLate (fetchCalls (world0 [])) (imagenUrl envLate) (authToken directRequest)
      = (20000, snd replyOk)"
    by (simp_all add: envLate_def env0_def)
  have uv: "fetch env0 (fetchCalls (world0 [])) (veoUrl env0 directRequest) (authToken directRequest)
      = (80, Resolved \<lparr>status = 401, body = Parsed (JObj invalidTokenBody)\<rparr>)"
    and ui: "fetch env0 (fetchCalls (world0 [])) (imagenUrl env0) (authToken directRequest)
      = (80, Resolved \<lparr>status = 401, body = Parsed (JObj invalidTokenBody)\<rparr>)"
    by (simp_all add: env0_def replyUnauthorized_def)
  have ov: "fetch envOffline (fetchCalls (world0 [])) (veoUrl envOffline directRequest) (authToken directRequest)
      = (5, Rejected (TypeError ''Failed to fetch''))"
    and oi: "fetch envOffline (fetchCalls (world0 [])) (imagenUrl envOffline) (authToken directRequest)
      = (5, Rejected (TypeError ''Failed to fetch''))"
    by (simp_all add: envOffline_def env0_def replyOffline_def)
  have api: "\<not> ok \<lparr>status = 401, body = Parsed (JObj invalidTokenBody)\<rparr>"
    "apiErrorMessage invalidTokenBody 401 = ''Invalid token''"
    by (simp_all add: ok_def apiErrorMessage_def orElse_def invalidTokenBody_def)
  have nm: "name (TypeError ''Failed to fetch'') \<noteq> ''AbortError''" by (simp add: TypeError_def)
  have late: "(\<exists>w'. generateVideoWithVeo3 envLate directRequest (world0 []) = Some (Inl timedOutError, w')
         \<and> trace w' = [SetTimeout 15000, FetchCall veoT2vUrl ''ya29.explicit'' None, AbortSignal, ClearTimeout])
     \<and> (\<exists>w'. generateImageWithImagen envLate directRequest (world0 []) = Some (Inl timedOutError, w')
         \<and> trace w' = [SetTimeout 15000, FetchCall imagenGenerateUrl ''ya29.explicit'' None, AbortSignal,
                        ClearTimeout])"
    using direct_path_times_out[OF tok lv li] by (auto simp: ul w0 tokv)
  have refused: "\<exists>w'. generateVideoWithVeo3 env0 directRequest (world0 []) = Some (Inl (Error ''Invalid token''), w')
         \<and> trace w' = [SetTimeout 15000, FetchCall veoT2vUrl ''ya29.explicit'' None, ClearTimeout]"
    using direct_path_times_out[OF tok uv ui] api by (auto simp: u0 w0 tokv)
  have offline: "(\<exists>w'. generateVideoWithVeo3 envOffline directRequest (world0 [])
              = Some (Inl (TypeError ''Failed to fetch''), w')
         \<and> trace w' = [SetTimeout 15000, FetchCall veoT2vUrl ''ya29.explicit'' None, ClearTimeout])
     \<and> (\<exists>w'. generateImageWithImagen envOffline directRequest (world0 [])
              = Some (Inl (TypeError ''Failed to fetch''), w')
         \<and> trace w' = [SetTimeout 15000, FetchCall imagenGenerateUrl ''ya29.explicit'' None, ClearTimeout])"
    using direct_path_times_out[OF tok ov oi] nm by (auto simp: uo w0 tokv)
  have f: "fetch envLate 0 veoT2vUrl ''ya29.explicit'' = (20000, snd replyOk)"
    "fetch env0 0 veoT2vUrl ''ya29.explicit'' = replyUnauthorized"
    "fetch envOffline 0 veoT2vUrl ''ya29.explicit'' = replyOffline"
    by (simp_all add: envLate_def envOffline_def env0_def)
  from tok f late refused offline show ?thesis by blast
qed

text \<open>
  Claim C8 as stated (a time-out error distinguishable from API errors) fails: the
  time-out error and the API errors of this path are plain \<open>Error\<close> objects, told apart
  by their message only. A server that
  answers in time with status 500 and the message \<open>Request timed out after 15 seconds.\<close>
  makes the call fail with the very error a time-out gives.
\<close>

theorem timeout_error_counterexample:
  "fst (fetch envSameText 0 ''https://veox.monoklix.com/api/veo/generate-t2v'' ''ya29.explicit'') \<le> 15000
   \<and> map_option fst (generateVideoWithVeo3 envSameText directRequest (world0 [])) = Some (Inl timedOutError)
   \<and> map_option fst (generateVideoWithVeo3 envLate directRequest (world0 [])) = Some (Inl timedOutError)
   \<and> filter isFetch (traceOf (generateVideoWithVeo3 envSameText directRequest (world0 [])))
       = [FetchCall ''https://veox.monoklix.com/api/veo/generate-t2v'' ''ya29.explicit'' None]"
  by (simp add: generateVideoWithVeo3_def directRequest_def envSameText_def envLate_def env0_def
      world0_def drawSeed_def fetchWithSignal_def Let_def interpretReply_def ok_def
      apiErrorMessage_def orElse_def directCatch_def timedOutError_def Error_def emit_def
      veoBaseUrl_def atLoad_def getVeoProxyUrl_def traceOf_def replyOk_def okBody_def)

subsection \<open>Which requests pass the admission gate\<close>

lemma acquireSlot_closed_gate:
  assumes "acquireSlot e cb s w = Some y"
  shows "\<exists>k. gate e k \<noteq> GateData False"
proof (rule acquireSlot.raw_induct[where P = "\<lambda>e cb s w y. \<exists>k. gate e k \<noteq> GateData False",
      OF _ assms], goal_cases)
  case (1 acquireSlot e cb s w y)
  show ?case
  proof (cases "gate e (gateCalls w) = GateData False")
    case True
    with 1(2) have "acquireSlot e cb s (denied cb s w) = Some y"
      by (simp add: Let_def denied_def)
    from 1(1)[OF this] show ?thesis .
  next
    case False
    then show ?thesis by blast
  qed
qed

text \<open>
  A request labelled as a generation request does poll the gate: after \<open>n\<close> denied
  polls, each followed by a wait of 2000 ms, and a granted one, admission is passed, and
  no transport call was made meanwhile. While the gate denies every poll the call does
  not return.
\<close>

lemma admission_polls_until_granted:
  assumes gen: "isGenerationRequest logContext"
    and denials: "\<forall>i<n. gate e (gateCalls w + i) = GateData False"
    and granted: "gate e (gateCalls w + n) = GateData True"
  shows "\<exists>w1. admission e endpoint logContext cb w = Some (Inr (), w1)
           \<and> gateSleepFetch (trace w1) = gateSleepFetch (trace w)
               @ concat (replicate n [GateCall 10 (slotServerUrl e endpoint) (GateData False), Sleep 2000])
               @ [GateCall 10 (slotServerUrl e endpoint) (GateData True)]"
proof -
  define s where "s = slotServerUrl e endpoint"
  define w0 where "w0 = onStatusUpdate cb
      ''Semua slot sedang digunakan. Anda berada dalam barisan menunggu...'' w"
  define wn where "wn = (denied cb s ^^ n) w0"
  define wg where "wg = emit (GateCall 10 s (GateData True)) (wn\<lparr>gateCalls := gateCalls wn + 1\<rparr>)"
  have g0: "gateCalls w0 = gateCalls w" by (simp add: w0_def)
  have "acquireSlot e cb s w0 = acquireSlot e cb s wn"
    unfolding wn_def using denials by (intro acquireSlot_denied_n) (simp add: g0)
  also have "\<dots> = Some (Inr (), wg)"
    unfolding wg_def using granted by (intro acquireSlot_granted_now) (simp add: wn_def g0)
  finally have acq: "acquireSlot e cb s w0 = Some (Inr (), wg)" .
  have adm: "admission e endpoint logContext cb w =
      Some (Inr (), onStatusUpdate cb ''Slot berjaya diperoleh. Memulakan penjanaan...'' wg)"
    using gen acq by (simp add: admission_def Let_def w0_def s_def)
  have den: "gateSleepFetch (concat (replicate n (deniedEvents cb s)))
      = concat (replicate n [GateCall 10 s (GateData False), Sleep 2000])"
    by (induction n) (simp_all add: gateSleepFetch_def deniedEvents_def)
  have "gateSleepFetch (trace (onStatusUpdate cb ''Slot berjaya diperoleh. Memulakan penjanaan...'' wg))
      = gateSleepFetch (trace w) @ concat (replicate n [GateCall 10 s (GateData False), Sleep 2000])
        @ [GateCall 10 s (GateData True)]"
    using den by (cases cb) (simp_all add: wg_def wn_def w0_def onStatusUpdate_def gateSleepFetch_def)
  with adm show ?thesis by (simp add: s_def)
qed

lemma closed_gate_blocks_generation_request:
  assumes gen: "isGenerationRequest logContext"
    and closed: "\<forall>k. gate e k = GateData False"
  shows "fetchWithTokenRotation e endpoint logContext specificToken cb w = None"
proof -
  have "acquireSlot e cb s w0 = None" for s w0
  proof (cases "acquireSlot e cb s w0")
    case (Some y)
    from acquireSlot_closed_gate[OF this] closed show ?thesis by blast
  qed simp
  with gen show ?thesis
    by (simp add: fetchWithTokenRotation_def admission_def Let_def)
qed

text \<open>
  Claim C3 fails on the code for the video service. \<open>generateVideoWithVeo3\<close> labels its
  rotated calls \<open>VEO T2V\<close> and \<open>VEO I2V\<close>; neither contains \<open>GENERATE\<close> or \<open>RECIPE\<close>,
  so the gate is not asked. With a gate that denies every poll, both calls reach the
  transport with a shared credential and return, without one gate call.
\<close>

theorem veo_generation_bypasses_gate:
  "isGenerationRequest ''VEO T2V'' = False
   \<and> isGenerationRequest ''VEO I2V'' = False
   \<and> gate envGateClosed 0 = GateData False
   \<and> map_option fst (generateVideoWithVeo3 envGateClosed textToVideo (world0 [sharedA]))
       = Some (Inr ([''op-1''], ''ya29.shared-A''))
   \<and> gateSleepFetch (traceOf (generateVideoWithVeo3 envGateClosed textToVideo (world0 [sharedA])))
       = [FetchCall ''https://veox.monoklix.com/api/veo/generate-t2v'' ''ya29.shared-A'' (Some ''unknown'')]
   \<and> map_option fst (generateVideoWithVeo3 envGateClosed imageToVideo (world0 [sharedA]))
       = Some (Inr ([''op-1''], ''ya29.shared-A''))
   \<and> gateSleepFetch (traceOf (generateVideoWithVeo3 envGateClosed imageToVideo (world0 [sharedA])))
       = [FetchCall ''https://veox.monoklix.com/api/veo/generate-i2v'' ''ya29.shared-A'' (Some ''unknown'')]"
  by code_simp

end
